theory Spec2Isabelle
  imports Main "HOL-Library.Word"
begin

section \<open>Strings\<close>

text \<open>
  A JavaScript string is a sequence of UTF-16 code units; indexing (\<open>cmd[i]\<close>), \<open>length\<close>
  and \<open>slice\<close> all count code units.  \<open>lit\<close> embeds an ASCII literal.
\<close>

type_synonym code_unit = "16 word"
type_synonym jsstring = "code_unit list"

definition lit :: "string \<Rightarrow> jsstring" where
  "lit s = map (\<lambda>c. of_nat (of_char c)) s"

text \<open>
  The characters matched by the regular expression \<open>/\s/\<close>, which are also the characters
  removed by \<open>String.prototype.trim\<close>: the ECMAScript WhiteSpace and LineTerminator
  productions.
\<close>

definition is_space :: "code_unit \<Rightarrow> bool" where
  "is_space ch \<longleftrightarrow>
     ch \<in> {0x09, 0x0A, 0x0B, 0x0C, 0x0D, 0x20, 0xA0, 0x1680,
            0x2028, 0x2029, 0x202F, 0x205F, 0x3000, 0xFEFF}
     \<or> (0x2000 \<le> ch \<and> ch \<le> 0x200A)"

definition dquote :: code_unit where "dquote = 0x22"
definition squote :: code_unit where "squote = 0x27"

section \<open>The command parser (runner.ts, parseCommand)\<close>

text \<open>
  The body of the \<open>for\<close> loop of \<open>parseCommand\<close>, as a recursion over the characters that
  remain, with the three mutable locals \<open>args\<close>, \<open>current\<close> and \<open>inQuote\<close> passed
  along (\<open>None\<close> is \<open>null\<close>).
\<close>

fun parseLoop ::
  "jsstring \<Rightarrow> jsstring list \<Rightarrow> jsstring \<Rightarrow> code_unit option
     \<Rightarrow> jsstring list \<times> jsstring \<times> code_unit option" where
  "parseLoop [] args current inQuote = (args, current, inQuote)"
| "parseLoop (ch # rest) args current (Some q) =
     (if ch = q then parseLoop rest args current None
      else parseLoop rest args (current @ [ch]) (Some q))"
| "parseLoop (ch # rest) args current None =
     (if ch = dquote \<or> ch = squote then parseLoop rest args current (Some ch)
      else if is_space ch then
        (if length current > 0 then parseLoop rest (args @ [current]) [] None
         else parseLoop rest args current None)
      else parseLoop rest args (current @ [ch]) None)"

definition parseCommand :: "jsstring \<Rightarrow> jsstring list" where
  "parseCommand cmd =
     (case parseLoop cmd [] [] None of
        (args, current, inQuote) \<Rightarrow>
          if length current > 0 then args @ [current] else args)"

text \<open>A command string has balanced quotes when the scan ends outside a quoted span.\<close>

definition balanced_quotes :: "jsstring \<Rightarrow> bool" where
  "balanced_quotes cmd \<longleftrightarrow> snd (snd (parseLoop cmd [] [] None)) = None"

text \<open>\<open>Array.prototype.join(" ")\<close> on a list of strings.\<close>

fun join_sp :: "jsstring list \<Rightarrow> jsstring" where
  "join_sp [] = []"
| "join_sp [t] = t"
| "join_sp (t # ts) = t @ 0x20 # join_sp ts"

text \<open>\<open>Array.prototype.join(sep)\<close> on a list of strings, for any separator.\<close>

fun js_join :: "jsstring \<Rightarrow> jsstring list \<Rightarrow> jsstring" where
  "js_join sep [] = []"
| "js_join sep [t] = t"
| "js_join sep (t # ts) = t @ sep @ js_join sep ts"

text \<open>A token is plain when it holds neither whitespace nor a quote character.\<close>

definition plain_token :: "jsstring \<Rightarrow> bool" where
  "plain_token t \<longleftrightarrow>
     list_all (\<lambda>c. \<not> is_space c \<and> c \<noteq> dquote \<and> c \<noteq> squote) t"


section \<open>JSON values\<close>

text \<open>
  The values that \<open>JSON.parse\<close> and \<open>response.json()\<close> return.  A number is an IEEE double:
  \<open>Finite m e\<close> stands for \<open>m * 2^e\<close> (both zeros are \<open>Finite 0 e\<close>) and \<open>Infinite neg\<close> for
  an infinity; \<open>NaN\<close> never comes out of JSON.  An object is the list of its own properties,
  each key once.
\<close>

datatype jsnum = Finite int int | Infinite bool

datatype json =
  JNull
| JBool bool
| JNum jsnum
| JStr jsstring
| JArr "json list"
| JObj "(jsstring \<times> json) list"

text \<open>
  Reading a property of a value that is neither \<open>null\<close> nor \<open>undefined\<close>; \<open>None\<close> is
  \<open>undefined\<close>.  Only the property names used in this program are ever read (\<open>thought\<close>,
  \<open>commands\<close>, \<open>done\<close>, \<open>success\<close>, \<open>actual_result\<close>, \<open>content\<close>, \<open>choices\<close>, \<open>message\<close>,
  \<open>type\<close>, \<open>text\<close>), and no primitive wrapper or array has one of them.
\<close>

fun get_prop :: "json \<Rightarrow> jsstring \<Rightarrow> json option" where
  "get_prop (JObj kvs) k = map_of kvs k"
| "get_prop v k = None"

text \<open>Optional chaining \<open>v?.k\<close>: \<open>undefined\<close> when \<open>v\<close> is \<open>null\<close> or \<open>undefined\<close>.\<close>

fun opt_prop :: "json option \<Rightarrow> jsstring \<Rightarrow> json option" where
  "opt_prop None k = None"
| "opt_prop (Some JNull) k = None"
| "opt_prop (Some v) k = get_prop v k"

text \<open>Optional indexing \<open>v?.[0]\<close>.\<close>

fun opt_index0 :: "json option \<Rightarrow> json option" where
  "opt_index0 None = None"
| "opt_index0 (Some JNull) = None"
| "opt_index0 (Some (JArr xs)) = (case xs of [] \<Rightarrow> None | x # _ \<Rightarrow> Some x)"
| "opt_index0 (Some (JStr s)) = (case s of [] \<Rightarrow> None | c # _ \<Rightarrow> Some (JStr [c]))"
| "opt_index0 (Some (JObj kvs)) = map_of kvs (lit ''0'')"
| "opt_index0 (Some v) = None"

text \<open>JavaScript truthiness (\<open>Boolean(v)\<close>, the test of \<open>||\<close> and \<open>!\<close>).\<close>

fun truthy :: "json option \<Rightarrow> bool" where
  "truthy None = False"
| "truthy (Some JNull) = False"
| "truthy (Some (JBool b)) = b"
| "truthy (Some (JNum (Finite m e))) = (m \<noteq> 0)"
| "truthy (Some (JNum (Infinite neg))) = True"
| "truthy (Some (JStr s)) = (s \<noteq> [])"
| "truthy (Some (JArr xs)) = True"
| "truthy (Some (JObj kvs)) = True"

text \<open>The expression \<open>v || ""\<close>.\<close>

definition or_empty :: "json option \<Rightarrow> json" where
  "or_empty v = (case v of None \<Rightarrow> JStr [] | Some x \<Rightarrow> if truthy (Some x) then x else JStr [])"

text \<open>Whether a value is a string (\<open>typeof v === "string"\<close>).\<close>

fun is_string :: "json \<Rightarrow> bool" where
  "is_string (JStr s) = True"
| "is_string v = False"

section \<open>Data model (types.ts, llm-shared.ts, browser.ts)\<close>

record TestStep =
  step :: int
  action :: jsstring
  expected :: jsstring

record TestCase =
  tc_id :: jsstring
  tc_title :: jsstring
  priority :: jsstring
  tags :: "jsstring list"
  target_url :: jsstring
  preconditions :: "jsstring list"
  site_context :: "jsstring list option"
  steps :: "TestStep list"

datatype status = Pass | Fail | Error | Skipped

text \<open>
  \<open>StepResult\<close>.  \<open>actual\<close> and \<open>commands_executed\<close> are declared as strings, but they
  receive \<open>action.actual_result\<close> and the elements of \<open>action.commands\<close> as they come from the
  adapter, and \<open>parseAgentResponse\<close> does not check the type of either.
\<close>

record StepResult =
  r_step :: int
  r_action :: jsstring
  r_expected :: jsstring
  status :: status
  actual :: json
  reasoning :: jsstring
  commands_executed :: "json list"
  screenshot :: "jsstring option"
  duration_ms :: int

text \<open>
  \<open>started_at\<close> and \<open>finished_at\<close> hold the time value of the two \<open>Date\<close> objects
  (milliseconds); their rendering by \<open>toISOString\<close> is left out.
\<close>

record TestReport =
  test_id :: jsstring
  report_title :: jsstring
  report_status :: status
  started_at :: int
  finished_at :: int
  report_duration_ms :: int
  report_steps :: "StepResult list"
  summary :: jsstring

text \<open>
  \<open>AgentAction\<close>, with the type of its text positions as a parameter.  At run time the
  object is a \<open>json AgentAction\<close>: \<open>parseAgentResponse\<close> builds it from whatever values
  \<open>JSON.parse\<close> returned, and the runner receives it as it is.  \<open>jsstring AgentAction\<close> is the
  declared interface.
\<close>

record 'v AgentAction =
  thought :: 'v
  commands :: "'v list"
  "done" :: bool
  success :: bool
  actual_result :: 'v

record LLMRequest =
  systemPrompt :: jsstring
  stepDescription :: jsstring
  expectedResult :: jsstring
  browserState :: jsstring
  previousActions :: "jsstring list"
  pageUrl :: jsstring
  pageTitle :: jsstring
  iteration :: nat
  maxIterations :: nat

record BrowserCommandResult =
  stdout :: jsstring
  stderr :: jsstring
  b_success :: bool

section \<open>The environment of the runner\<close>

text \<open>
  What the promisified \<open>execFile\<close> does with the \<open>agent-browser\<close> subprocess: it resolves
  with the two output streams, or it fails with an error object that has a \<open>message\<close>.  When
  the subprocess ran and failed (a non-zero exit, a time-out, a binary that is missing) the
  error carries \<open>stdout\<close> and \<open>stderr\<close>, possibly empty; when the arguments are refused before
  a process is made (a NUL character in an argument) it carries neither.
\<close>

datatype exec_outcome =
  Exited jsstring jsstring
| ExecError "jsstring option" "jsstring option" jsstring

text \<open>
  Everything the runner does to the outside world is recorded, in order, in a trace of
  events: a subprocess call with its arguments, timeout and outcome; a call of the
  adapter's \<open>decideAction\<close> with its request and what it returned (\<open>Inl\<close> is a thrown error,
  by its message); a \<open>setTimeout\<close> pause in milliseconds; and an exception that the engine
  raised, with its message, while the runner dispatched a command value that is not a string.
\<close>

datatype event =
  EvExec "jsstring list" nat exec_outcome
| EvDecide LLMRequest "jsstring + json AgentAction"
| EvSleep nat
| EvRaised json jsstring

text \<open>
  The outside world is deterministic given the past: each collaborator answers as a
  function of the trace so far.  \<open>exec\<close> is the \<open>agent-browser\<close> subprocess, \<open>decide\<close> the
  adapter chosen by \<open>createLLMAdapter\<close>, \<open>now\<close> the clock (\<open>Date.now\<close>), \<open>shot_path\<close> the
  file path that \<open>takeStepScreenshot\<close> builds from the clock, the test id, the step number
  and \<open>SCREENSHOTS_DIR\<close>, and \<open>SYSTEM_PROMPT\<close> the constant prompt text of the runner.

  Two fields stand for the JavaScript engine where the runner dispatches a command value that
  is not a string.  For an array or an object, \<open>coerced_parts\<close> is the argument list that
  \<open>parseCommand\<close> computes from it through the engine's string conversions, or \<open>None\<close> when
  the template literal of the log line or \<open>parseCommand\<close> throws first.  \<open>raised_message\<close> is
  the \<open>message\<close> of the exception that the engine raises for the value.
\<close>

record env =
  exec :: "event list \<Rightarrow> jsstring list \<Rightarrow> nat \<Rightarrow> exec_outcome"
  decide :: "event list \<Rightarrow> LLMRequest \<Rightarrow> jsstring + json AgentAction"
  now :: "event list \<Rightarrow> int"
  shot_path :: "event list \<Rightarrow> jsstring \<Rightarrow> int \<Rightarrow> jsstring"
  SYSTEM_PROMPT :: jsstring
  coerced_parts :: "json \<Rightarrow> jsstring list option"
  raised_message :: "json \<Rightarrow> jsstring"

definition count_decide :: "event list \<Rightarrow> nat" where
  "count_decide tr = length (filter (\<lambda>e. case e of EvDecide _ _ \<Rightarrow> True | _ \<Rightarrow> False) tr)"

section \<open>Browser helpers (browser.ts)\<close>

definition DEFAULT_TIMEOUT :: nat where
  "DEFAULT_TIMEOUT = 30000"

definition trim :: "jsstring \<Rightarrow> jsstring" where
  "trim s = rev (dropWhile is_space (rev (dropWhile is_space s)))"

definition runBrowserCommand ::
  "env \<Rightarrow> jsstring list \<Rightarrow> nat \<Rightarrow> event list \<Rightarrow> BrowserCommandResult \<times> event list" where
  "runBrowserCommand E args timeoutMs tr =
     (let out = exec E tr args timeoutMs in
      (case out of
         Exited so se \<Rightarrow> \<lparr>stdout = trim so, stderr = trim se, b_success = True\<rparr>
       | ExecError so se msg \<Rightarrow>
           \<lparr>stdout = (case so of None \<Rightarrow> [] | Some s \<Rightarrow> trim s),
            stderr = (case se of None \<Rightarrow> msg | Some s \<Rightarrow> trim s),
            b_success = False\<rparr>,
       tr @ [EvExec args timeoutMs out]))"

definition openUrl :: "env \<Rightarrow> jsstring \<Rightarrow> event list \<Rightarrow> BrowserCommandResult \<times> event list" where
  "openUrl E u tr = runBrowserCommand E [lit ''open'', u] DEFAULT_TIMEOUT tr"

definition waitForNetworkIdle :: "env \<Rightarrow> event list \<Rightarrow> BrowserCommandResult \<times> event list" where
  "waitForNetworkIdle E tr =
     runBrowserCommand E [lit ''wait'', lit ''--load'', lit ''networkidle''] 30000 tr"

definition getSnapshot :: "env \<Rightarrow> event list \<Rightarrow> jsstring \<times> event list" where
  "getSnapshot E tr =
     (case runBrowserCommand E [lit ''snapshot'', lit ''-i'', lit ''-c''] DEFAULT_TIMEOUT tr of
        (result, tr') \<Rightarrow> (stdout result, tr'))"

definition getUrl :: "env \<Rightarrow> event list \<Rightarrow> jsstring \<times> event list" where
  "getUrl E tr =
     (case runBrowserCommand E [lit ''get'', lit ''url''] DEFAULT_TIMEOUT tr of
        (result, tr') \<Rightarrow> (stdout result, tr'))"

definition getTitle :: "env \<Rightarrow> event list \<Rightarrow> jsstring \<times> event list" where
  "getTitle E tr =
     (case runBrowserCommand E [lit ''get'', lit ''title''] DEFAULT_TIMEOUT tr of
        (result, tr') \<Rightarrow> (stdout result, tr'))"

definition screenshot_cmd ::
  "env \<Rightarrow> jsstring \<Rightarrow> bool \<Rightarrow> event list \<Rightarrow> BrowserCommandResult \<times> event list" where
  "screenshot_cmd E filepath annotate tr =
     runBrowserCommand E
       ([lit ''screenshot'', filepath] @ (if annotate then [lit ''--annotate''] else []))
       DEFAULT_TIMEOUT tr"

definition takeStepScreenshot ::
  "env \<Rightarrow> jsstring \<Rightarrow> int \<Rightarrow> event list \<Rightarrow> jsstring \<times> event list" where
  "takeStepScreenshot E testId stepNumber tr =
     (let filepath = shot_path E tr testId stepNumber in
      (filepath, snd (screenshot_cmd E filepath False tr)))"

section \<open>The test runner (runner.ts)\<close>

definition buildSystemPrompt :: "env \<Rightarrow> TestCase \<Rightarrow> jsstring" where
  "buildSystemPrompt E testCase =
     (case site_context testCase of
        None \<Rightarrow> SYSTEM_PROMPT E
      | Some hints \<Rightarrow>
          if length hints > 0
          then SYSTEM_PROMPT E @ [0x0A, 0x0A] @ lit ''## Site-Specific Context'' @ [0x0A, 0x0A]
                 @ js_join [0x0A] (map (\<lambda>hint. lit ''- '' @ hint) hints)
          else SYSTEM_PROMPT E)"

definition MAX_ITERATIONS :: nat where
  "MAX_ITERATIONS = 10"

definition SNAPSHOT_SENTINEL :: jsstring where
  "SNAPSHOT_SENTINEL = lit ''__SNAPSHOT__''"

definition startsWith :: "jsstring \<Rightarrow> jsstring \<Rightarrow> bool" where
  "startsWith s p \<longleftrightarrow> take (length p) s = p"

text \<open>
  The locals of one step of \<open>runTestCase\<close> that the inner loops read and write, together
  with the trace.  The array \<open>allCommands\<close> is kept in two parts: \<open>allCommands\<close> holds its
  string elements, and \<open>pushed\<close> the element after them that is not a string.  Such a value is
  pushed only in the pass of the command loop that then throws at \<open>cmd.startsWith\<close>, so no
  request ever sees it, and it reaches \<open>commands_executed\<close> alone.
\<close>

record loop_state =
  snapshot :: jsstring
  url :: jsstring
  title :: jsstring
  allCommands :: "jsstring list"
  pushed :: "json list"
  trace :: "event list"

text \<open>The three assignments \<open>snapshot = await getSnapshot(); url = ...; title = ...\<close>.\<close>

definition capture :: "env \<Rightarrow> loop_state \<Rightarrow> loop_state" where
  "capture E s =
     (case getSnapshot E (trace s) of (sn, t1) \<Rightarrow>
      case getUrl E t1 of (u, t2) \<Rightarrow>
      case getTitle E t2 of (ti, t3) \<Rightarrow>
        s\<lparr>snapshot := sn, url := u, title := ti, trace := t3\<rparr>)"

text \<open>
  The argument list that \<open>parseCommand\<close> returns for a command value, or \<open>None\<close> where the
  runner throws before it has one.  For \<open>null\<close>, reading \<open>cmd.length\<close> throws.  A boolean or
  a number has no \<open>length\<close>, so the scan loop is not entered and the list is empty.
\<close>

fun argument_list :: "env \<Rightarrow> json \<Rightarrow> jsstring list option" where
  "argument_list E (JStr cmd) = Some (parseCommand cmd)"
| "argument_list E JNull = None"
| "argument_list E (JBool b) = Some []"
| "argument_list E (JNum n) = Some []"
| "argument_list E v = coerced_parts E v"

text \<open>
  One pass of the command loop on a value that is not a string.  It is not the sentinel; if
  an argument list is computed the subprocess is run with it and the value is pushed; then
  \<open>cmd.startsWith\<close> is not a function, and the call throws.  The exception leaves the command
  loop and the iteration loop for the \<open>catch\<close> block of the step.
\<close>

definition dispatch_non_string :: "env \<Rightarrow> json \<Rightarrow> loop_state \<Rightarrow> jsstring \<times> loop_state" where
  "dispatch_non_string E cmd s =
     (case argument_list E cmd of
        None \<Rightarrow>
          (raised_message E cmd,
           s\<lparr>trace := trace s @ [EvRaised cmd (raised_message E cmd)]\<rparr>)
      | Some parts \<Rightarrow>
          (let tr1 = snd (runBrowserCommand E parts DEFAULT_TIMEOUT (trace s))
           in (raised_message E cmd,
               s\<lparr>pushed := [cmd], trace := tr1 @ [EvRaised cmd (raised_message E cmd)]\<rparr>)))"

text \<open>
  The loop \<open>for (const cmd of action.commands)\<close>.  The result is \<open>Some msg\<close> when a pass
  threw an exception with that message, and \<open>None\<close> when the loop ran to the end of the list.
  \<open>runBrowserCommand\<close> never throws.
\<close>

fun runCommands :: "env \<Rightarrow> json list \<Rightarrow> loop_state \<Rightarrow> jsstring option \<times> loop_state" where
  "runCommands E [] s = (None, s)"
| "runCommands E (JStr cmd # cmds) s =
     (if cmd = SNAPSHOT_SENTINEL then runCommands E cmds (capture E s)
      else
        (let parts = parseCommand cmd;
             tr1 = snd (runBrowserCommand E parts DEFAULT_TIMEOUT (trace s));
             tr2 = (if list_ex (startsWith cmd) [lit ''click'', lit ''fill'', lit ''select'', lit ''press'']
                    then tr1 @ [EvSleep 1500] else tr1)
         in runCommands E cmds (s\<lparr>allCommands := allCommands s @ [cmd], trace := tr2\<rparr>)))"
| "runCommands E (cmd # cmds) s =
     (case dispatch_non_string E cmd s of (msg, s') \<Rightarrow> (Some msg, s'))"

definition mkRequest :: "jsstring \<Rightarrow> TestStep \<Rightarrow> nat \<Rightarrow> loop_state \<Rightarrow> LLMRequest" where
  "mkRequest sysPrompt st iter s =
     \<lparr>systemPrompt = sysPrompt, stepDescription = action st, expectedResult = expected st,
      browserState = snapshot s, previousActions = allCommands s,
      pageUrl = url s, pageTitle = title s,
      iteration = iter + 1, maxIterations = MAX_ITERATIONS\<rparr>"

text \<open>
  The loop \<open>for (let iter = 0; iter < MAX_ITERATIONS; iter++)\<close>, entered with the current
  value of \<open>iter\<close>.  The result is \<open>Inl msg\<close> when \<open>decideAction\<close> or the command loop threw
  (the exception leaves the loop for the \<open>catch\<close> block), and otherwise \<open>Inr\<close> of the values of
  \<open>stepStatus\<close> and \<open>actualResult\<close> when the loop is left: assigned at the \<open>break\<close>, or still
  at their initial values \<open>"pass"\<close> and \<open>""\<close> when the loop condition fails.
\<close>

function iterate ::
  "env \<Rightarrow> jsstring \<Rightarrow> TestStep \<Rightarrow> nat \<Rightarrow> loop_state
     \<Rightarrow> (jsstring + status \<times> json) \<times> loop_state" where
  "iterate E sysPrompt st iter s =
     (if iter < MAX_ITERATIONS then
        (let request = mkRequest sysPrompt st iter s;
             answer = decide E (trace s) request;
             s1 = s\<lparr>trace := trace s @ [EvDecide request answer]\<rparr>
         in case answer of
              Inl msg \<Rightarrow> (Inl msg, s1)
            | Inr act \<Rightarrow>
                (case runCommands E (commands act) s1 of
                   (Some msg, s2) \<Rightarrow> (Inl msg, s2)
                 | (None, s2) \<Rightarrow>
                     if done act
                     then (Inr (if success act then Pass else Fail, actual_result act), s2)
                     else iterate E sysPrompt st (iter + 1) (capture E s2)))
      else (Inr (Pass, JStr []), s))"
  by pat_completeness auto
termination
  by (relation "measure (\<lambda>(E, sysPrompt, st, iter, s). MAX_ITERATIONS - iter)") auto

definition timeout_message :: jsstring where
  "timeout_message =
     lit ''Step timed out after 10 iterations without reaching a conclusion.''"

text \<open>
  The \<open>try\<close> block of one step with its \<open>catch\<close>: the first capture, the iteration loop, the
  test after the loop, and the handler.  It yields \<open>stepStatus\<close>, \<open>actualResult\<close> and the
  state (\<open>allCommands\<close> and the trace) at the end.  \<open>start_state\<close> is the state at the
  head of the step, before the first capture.
\<close>

definition start_state :: "event list \<Rightarrow> loop_state" where
  "start_state tr =
     \<lparr>snapshot = [], url = [], title = [], allCommands = [], pushed = [], trace = tr\<rparr>"

definition tryBlock ::
  "env \<Rightarrow> jsstring \<Rightarrow> TestStep \<Rightarrow> event list \<Rightarrow> status \<times> json \<times> loop_state" where
  "tryBlock E sysPrompt st tr =
     (let s0 = capture E (start_state tr)
      in case iterate E sysPrompt st 0 s0 of
           (Inl msg, s) \<Rightarrow> (Error, JStr (lit ''Error: '' @ msg), s)
         | (Inr (stepStatus, actualResult), s) \<Rightarrow>
             if stepStatus = Pass \<and> actualResult = JStr []
             then (Fail, JStr timeout_message, s)
             else (stepStatus, actualResult, s))"

text \<open>One pass through the body of \<open>for (const step of testCase.steps)\<close>, up to the push.\<close>

definition runStep ::
  "env \<Rightarrow> jsstring \<Rightarrow> jsstring \<Rightarrow> TestStep \<Rightarrow> event list \<Rightarrow> StepResult \<times> event list" where
  "runStep E sysPrompt testId st tr =
     (let stepStart = now E tr in
      case tryBlock E sysPrompt st tr of
        (stepStatus, actualResult, s) \<Rightarrow>
          (case takeStepScreenshot E testId (step st) (trace s) of
             (screenshotPath, tr1) \<Rightarrow>
               (\<lparr>r_step = step st, r_action = action st, r_expected = expected st,
                 status = stepStatus, actual = actualResult, reasoning = [],
                 commands_executed = map JStr (allCommands s) @ pushed s,
                 screenshot = Some screenshotPath,
                 duration_ms = now E tr1 - stepStart\<rparr>, tr1)))"

text \<open>
  The loop over the steps, with \<open>overallStatus\<close> and \<open>stepResults\<close> passed along; the
  \<open>break\<close> after a step with status \<open>"error"\<close> ends it.
\<close>

fun runSteps ::
  "env \<Rightarrow> jsstring \<Rightarrow> jsstring \<Rightarrow> TestStep list \<Rightarrow> status \<Rightarrow> StepResult list \<Rightarrow> event list
     \<Rightarrow> status \<times> StepResult list \<times> event list" where
  "runSteps E sysPrompt testId [] overallStatus stepResults tr = (overallStatus, stepResults, tr)"
| "runSteps E sysPrompt testId (st # rest) overallStatus stepResults tr =
     (case runStep E sysPrompt testId st tr of
        (r, tr') \<Rightarrow>
          (let overallStatus' =
                 (if status r \<noteq> Pass then (if status r = Error then Error else Fail)
                  else overallStatus);
               stepResults' = stepResults @ [r]
           in if status r = Error then (overallStatus', stepResults', tr')
              else runSteps E sysPrompt testId rest overallStatus' stepResults' tr'))"

fun show_digit :: "nat \<Rightarrow> code_unit" where
  "show_digit d = of_nat (48 + d)"

function show_nat :: "nat \<Rightarrow> jsstring" where
  "show_nat n = (if n < 10 then [show_digit n] else show_nat (n div 10) @ [show_digit (n mod 10)])"
  by pat_completeness auto
termination
  by (relation "measure id") auto

fun status_upper :: "status \<Rightarrow> jsstring" where
  "status_upper Pass = lit ''PASS''"
| "status_upper Fail = lit ''FAIL''"
| "status_upper Error = lit ''ERROR''"
| "status_upper Skipped = lit ''SKIPPED''"

text \<open>
  \<open>runTestCase\<close>, given the test case that \<open>loadTestCase\<close> read and, in the environment, the
  adapter that \<open>createLLMAdapter\<close> made.  Console output is left out.
\<close>

definition runTestCase :: "env \<Rightarrow> TestCase \<Rightarrow> event list \<Rightarrow> TestReport \<times> event list" where
  "runTestCase E testCase tr0 =
     (let sysPrompt = buildSystemPrompt E testCase;
          startedAt = now E tr0;
          tr1 = snd (openUrl E (target_url testCase) tr0);
          tr2 = snd (waitForNetworkIdle E tr1)
      in case runSteps E sysPrompt (tc_id testCase) (steps testCase) Pass [] tr2 of
           (overallStatus, stepResults, tr3) \<Rightarrow>
             (let finishedAt = now E tr3 in
              (\<lparr>test_id = tc_id testCase, report_title = tc_title testCase,
                report_status = overallStatus,
                started_at = startedAt, finished_at = finishedAt,
                report_duration_ms = finishedAt - startedAt,
                report_steps = stepResults,
                summary = lit ''Test '' @ tc_id testCase @ lit '' '' @ status_upper overallStatus
                  @ lit ''. ''
                  @ show_nat (length (filter (\<lambda>s. status s = Pass) stepResults))
                  @ lit ''/'' @ show_nat (length stepResults) @ lit '' steps passed.''\<rparr>, tr3)))"

text \<open>
  The messages of the exceptions raised inside the \<open>try\<close> blocks, in the order of a trace:
  those that \<open>decideAction\<close> threw and those that the engine raised in the command loop.
\<close>

definition thrown :: "event list \<Rightarrow> jsstring list" where
  "thrown tr =
     concat (map (\<lambda>e. case e of
                         EvDecide req (Inl msg) \<Rightarrow> [msg]
                       | EvRaised v msg \<Rightarrow> [msg]
                       | _ \<Rightarrow> []) tr)"

section \<open>Shared helpers of the adapters (llm-shared.ts)\<close>

definition buildUserMessage :: "LLMRequest \<Rightarrow> jsstring" where
  "buildUserMessage request =
     (if length (previousActions request) = 0
      then lit ''## Current Test Step\<newline>\<newline>''
             @ lit ''**Action:** '' @ stepDescription request @ lit ''\<newline>''
             @ lit ''**Expected result:** '' @ expectedResult request @ lit ''\<newline>\<newline>''
      else lit ''## After executing: ''
             @ js_join (lit '', '')
                 (drop (length (previousActions request) - 3) (previousActions request))
             @ lit ''\<newline>\<newline>'')
     @ lit ''**Page URL:** '' @ pageUrl request @ lit ''\<newline>''
     @ lit ''**Page title:** '' @ pageTitle request @ lit ''\<newline>\<newline>''
     @ lit ''## Browser Accessibility Snapshot\<newline>\<newline>''
     @ lit ''```\<newline>'' @ browserState request @ lit ''\<newline>```\<newline>''
     @ (if length (previousActions request) > 0
        then lit ''\<newline>## Commands executed so far this step\<newline>\<newline>''
               @ js_join (lit ''\<newline>'')
                   (map (\<lambda>c. lit ''- `'' @ c @ lit ''`'') (previousActions request))
               @ lit ''\<newline>''
        else [])
     @ lit ''\<newline>Decide the next action(s). Respond with JSON only.''"

text \<open>
  The two replacements that remove a Markdown code fence:
  \<open>replace(/^```(?:json)?\n?/, "")\<close> and \<open>replace(/\n?```$/, "")\<close>.
\<close>

definition strip_fence_open :: "jsstring \<Rightarrow> jsstring" where
  "strip_fence_open s =
     (if startsWith s (lit ''```'') then
        (let s1 = drop 3 s;
             s2 = (if startsWith s1 (lit ''json'') then drop 4 s1 else s1)
         in if startsWith s2 [0x0A] then drop 1 s2 else s2)
      else s)"

definition endsWith :: "jsstring \<Rightarrow> jsstring \<Rightarrow> bool" where
  "endsWith s p \<longleftrightarrow> length p \<le> length s \<and> drop (length s - length p) s = p"

definition strip_fence_close :: "jsstring \<Rightarrow> jsstring" where
  "strip_fence_close s =
     (if endsWith s (lit ''```'') then
        (let s1 = take (length s - 3) s
         in if endsWith s1 [0x0A] then take (length s1 - 1) s1 else s1)
      else s)"

text \<open>
  The object returned from the \<open>catch\<close> block of \<open>parseAgentResponse\<close>; the dash in the
  message is U+2014.
\<close>

definition parse_failure :: "jsstring \<Rightarrow> json AgentAction" where
  "parse_failure raw =
     \<lparr>thought = JStr (lit ''Parse error '' @ [0x2014] @ lit '' raw response: '' @ take 200 raw),
      commands = [], done = False, success = False, actual_result = JStr []\<rparr>"

text \<open>
  The first statements of \<open>parseAgentResponse\<close>, which compute \<open>cleaned\<close>.
\<close>

definition clean_response :: "jsstring \<Rightarrow> jsstring" where
  "clean_response raw =
     (let cleaned = trim raw
      in if startsWith cleaned (lit ''```'')
         then strip_fence_close (strip_fence_open cleaned) else cleaned)"

text \<open>
  \<open>parseAgentResponse\<close>, given \<open>JSON.parse\<close> as a function that returns \<open>None\<close> where it throws
  a \<open>SyntaxError\<close>.  Reading \<open>parsed.thought\<close> of \<open>null\<close> throws a \<open>TypeError\<close> inside the
  \<open>try\<close> block, so \<open>null\<close> ends in the \<open>catch\<close> block as well.
\<close>

definition parseAgentResponse :: "(jsstring \<Rightarrow> json option) \<Rightarrow> jsstring \<Rightarrow> json AgentAction" where
  "parseAgentResponse json_parse raw =
     (let cleaned = clean_response raw
      in case json_parse cleaned of
           None \<Rightarrow> parse_failure raw
         | Some JNull \<Rightarrow> parse_failure raw
         | Some parsed \<Rightarrow>
             \<lparr>thought = or_empty (get_prop parsed (lit ''thought'')),
              commands = (case get_prop parsed (lit ''commands'') of
                            Some (JArr xs) \<Rightarrow> xs | _ \<Rightarrow> []),
              done = truthy (get_prop parsed (lit ''done'')),
              success = truthy (get_prop parsed (lit ''success'')),
              actual_result = or_empty (get_prop parsed (lit ''actual_result''))\<rparr>)"



section \<open>The environment of the autonomous adapters\<close>

record message =
  role :: jsstring
  content :: json

text \<open>
  What the adapters read of a \<open>fetch\<close> response: the status, the \<open>retry-after\<close> header
  (\<open>None\<close> is \<open>null\<close>), and the outcome of \<open>response.text()\<close> and of \<open>response.json()\<close>,
  where \<open>Inl\<close> is a rejected promise.
\<close>

record http_response =
  http_status :: nat
  retry_after :: "jsstring option"
  body_text :: "jsstring + jsstring"
  body_json :: "jsstring + json"

text \<open>\<open>response.ok\<close>: the status is in the range 200 to 299.\<close>

definition ok :: "http_response \<Rightarrow> bool" where
  "ok response \<longleftrightarrow> 200 \<le> http_status response \<and> http_status response \<le> 299"

text \<open>
  What an adapter call can throw: \<open>Err msg\<close> is \<open>new Error(msg)\<close> made by the adapter itself,
  \<open>Rejected msg\<close> a rejected promise of \<open>fetch\<close>, \<open>text()\<close> or \<open>json()\<close>, and \<open>TypeError\<close> the
  engine's error for reading a property of \<open>null\<close> or calling what is not a function.
\<close>

datatype api_error = Err jsstring | Rejected jsstring | TypeError

text \<open>
  The trace of an adapter: each \<open>fetch\<close> with its URL, headers, body and outcome, and each
  \<open>setTimeout\<close> pause in milliseconds.  The body is recorded as the object handed to
  \<open>JSON.stringify\<close>.
\<close>

datatype api_event =
  ApiFetch jsstring "(jsstring \<times> jsstring) list" json "jsstring + http_response"
| ApiSleep nat

record net =
  fetch :: "api_event list \<Rightarrow> jsstring \<Rightarrow> (jsstring \<times> jsstring) list \<Rightarrow> json
              \<Rightarrow> jsstring + http_response"
  JSON_parse :: "jsstring \<Rightarrow> json option"
  JSON_stringify :: "json \<Rightarrow> jsstring"
  ACTION_SCHEMA :: jsstring

definition count_fetch :: "api_event list \<Rightarrow> nat" where
  "count_fetch tr = length (filter (\<lambda>e. case e of ApiFetch _ _ _ _ \<Rightarrow> True | _ \<Rightarrow> False) tr)"

definition sleeps :: "api_event list \<Rightarrow> nat list" where
  "sleeps tr = concat (map (\<lambda>e. case e of ApiSleep ms \<Rightarrow> [ms] | _ \<Rightarrow> []) tr)"

text \<open>
  The private fields of an adapter object.  \<open>apiKey\<close> is the field \<open>token\<close> of the GitHub
  Models adapter.
\<close>

record adapter =
  apiKey :: jsstring
  model :: jsstring
  conversationHistory :: "message list"

section \<open>Retry policy and transport (providers/anthropic.ts, providers/github-models.ts)\<close>

definition MAX_RETRIES :: nat where
  "MAX_RETRIES = 3"

definition is_digit :: "code_unit \<Rightarrow> bool" where
  "is_digit c \<longleftrightarrow> 0x30 \<le> c \<and> c \<le> 0x39"

text \<open>
  \<open>parseInt(s, 10)\<close>: leading whitespace is skipped, one sign is accepted, and the longest run
  of decimal digits is read; \<open>None\<close> is \<open>NaN\<close>.  The value is kept exact; the double that
  JavaScript computes compares with 0 and 60 in the same way, and equals it up to 60.
\<close>

definition parseInt10 :: "jsstring \<Rightarrow> int option" where
  "parseInt10 s =
     (let t = dropWhile is_space s;
          neg = (case t of [] \<Rightarrow> False | c # r \<Rightarrow> c = 0x2D);
          u = (case t of [] \<Rightarrow> [] | c # r \<Rightarrow> if c = 0x2D \<or> c = 0x2B then r else t);
          ds = takeWhile is_digit u;
          v = foldl (\<lambda>acc d. 10 * acc + (uint d - 48)) 0 ds
      in if ds = [] then None else Some (if neg then - v else v))"

text \<open>
  The seconds to wait after a 429 response, the same expression in both adapters:
  \<open>retryAfter ? parseInt(retryAfter, 10) : NaN\<close>, then the test on \<open>parsedWait\<close>.
\<close>

definition rateLimitWait :: "jsstring option \<Rightarrow> nat \<Rightarrow> nat" where
  "rateLimitWait retryAfter attempt =
     (let parsedWait = (case retryAfter of
                          None \<Rightarrow> None
                        | Some h \<Rightarrow> if h = [] then None else parseInt10 h)
      in case parsedWait of
           Some n \<Rightarrow> if n > 0 \<and> n \<le> 60 then nat n else min (10 * (attempt + 1)) 30
         | None \<Rightarrow> min (10 * (attempt + 1)) 30)"

definition msg_json :: "message \<Rightarrow> json" where
  "msg_json m = JObj [(lit ''role'', JStr (role m)), (lit ''content'', content m)]"

subsection \<open>Anthropic\<close>

definition ANTHROPIC_ENDPOINT :: jsstring where
  "ANTHROPIC_ENDPOINT = lit ''https://api.anthropic.com/v1/messages''"

definition ANTHROPIC_API_VERSION :: jsstring where
  "ANTHROPIC_API_VERSION = lit ''2023-06-01''"

definition anthropic_headers :: "adapter \<Rightarrow> (jsstring \<times> jsstring) list" where
  "anthropic_headers this =
     [(lit ''x-api-key'', apiKey this),
      (lit ''anthropic-version'', ANTHROPIC_API_VERSION),
      (lit ''Content-Type'', lit ''application/json'')]"

definition anthropic_body :: "adapter \<Rightarrow> jsstring \<Rightarrow> message list \<Rightarrow> json" where
  "anthropic_body this sysPrompt messages =
     JObj [(lit ''model'', JStr (model this)),
           (lit ''max_tokens'', JNum (Finite 1024 0)),
           (lit ''system'', JStr sysPrompt),
           (lit ''messages'', JArr (map msg_json messages))]"

text \<open>\<open>data.content.find((block) => block.type === "text")\<close> on an array.\<close>

fun find_text_block :: "json list \<Rightarrow> api_error + json option" where
  "find_text_block [] = Inr None"
| "find_text_block (JNull # blocks) = Inl TypeError"
| "find_text_block (block # blocks) =
     (if get_prop block (lit ''type'') = Some (JStr (lit ''text'')) then Inr (Some block)
      else find_text_block blocks)"

definition anthropic_unexpected :: "net \<Rightarrow> json \<Rightarrow> api_error" where
  "anthropic_unexpected N data =
     Err (lit ''Unexpected Anthropic response structure: '' @ take 500 (JSON_stringify N data))"

text \<open>The end of the loop body of \<open>callApi\<close>, from the parsed body \<open>data\<close> on.\<close>

definition anthropic_text :: "net \<Rightarrow> json \<Rightarrow> api_error + json" where
  "anthropic_text N data =
     (case data of
        JNull \<Rightarrow> Inl TypeError
      | _ \<Rightarrow>
        (case get_prop data (lit ''content'') of
           None \<Rightarrow> Inl (anthropic_unexpected N data)
         | Some JNull \<Rightarrow> Inl (anthropic_unexpected N data)
         | Some (JArr blocks) \<Rightarrow>
             (case find_text_block blocks of
                Inl e \<Rightarrow> Inl e
              | Inr None \<Rightarrow> Inl (anthropic_unexpected N data)
              | Inr (Some textBlock) \<Rightarrow>
                  (case get_prop textBlock (lit ''text'') of
                     None \<Rightarrow> Inl (anthropic_unexpected N data)
                   | Some t \<Rightarrow> if truthy (Some t) then Inr t
                              else Inl (anthropic_unexpected N data)))
         | Some other \<Rightarrow> Inl TypeError))"

text \<open>
  The loop \<open>for (let attempt = 0; attempt <= MAX_RETRIES; attempt++)\<close> of \<open>callApi\<close>, entered
  with the current values of \<open>attempt\<close> and \<open>lastError\<close>, and the \<open>throw\<close> after it.
\<close>

function anthropic_attempts ::
  "net \<Rightarrow> adapter \<Rightarrow> json \<Rightarrow> nat \<Rightarrow> api_error option \<Rightarrow> api_event list
     \<Rightarrow> (api_error + json) \<times> api_event list" where
  "anthropic_attempts N this body attempt lastError tr =
     (if attempt \<le> MAX_RETRIES then
        (let answer = fetch N tr ANTHROPIC_ENDPOINT (anthropic_headers this) body;
             tr1 = tr @ [ApiFetch ANTHROPIC_ENDPOINT (anthropic_headers this) body answer]
         in case answer of
              Inl reason \<Rightarrow> (Inl (Rejected reason), tr1)
            | Inr response \<Rightarrow>
                if http_status response = 429 then
                  (let waitSec = rateLimitWait (retry_after response) attempt
                   in anthropic_attempts N this body (attempt + 1)
                        (Some (Err (lit ''Rate limited (429)'')))
                        (tr1 @ [ApiSleep (waitSec * 1000)]))
                else if http_status response = 529 then
                  (let waitSec = min (15 * (attempt + 1)) 45
                   in anthropic_attempts N this body (attempt + 1)
                        (Some (Err (lit ''Anthropic overloaded (529)'')))
                        (tr1 @ [ApiSleep (waitSec * 1000)]))
                else if \<not> ok response then
                  (case body_text response of
                     Inl reason \<Rightarrow> (Inl (Rejected reason), tr1)
                   | Inr errBody \<Rightarrow>
                       (Inl (Err (lit ''Anthropic API error '' @ show_nat (http_status response)
                                   @ lit '': '' @ take 500 errBody)), tr1))
                else
                  (case body_json response of
                     Inl reason \<Rightarrow> (Inl (Rejected reason), tr1)
                   | Inr data \<Rightarrow> (anthropic_text N data, tr1)))
      else (Inl (case lastError of Some e \<Rightarrow> e | None \<Rightarrow> Err (lit ''Max retries exceeded'')), tr))"
  by pat_completeness auto
termination
  by (relation "measure (\<lambda>(N, this, body, attempt, lastError, tr). Suc MAX_RETRIES - attempt)")
     auto

definition anthropic_callApi ::
  "net \<Rightarrow> adapter \<Rightarrow> jsstring \<Rightarrow> message list \<Rightarrow> api_event list
     \<Rightarrow> (api_error + json) \<times> api_event list" where
  "anthropic_callApi N this sysPrompt messages tr =
     anthropic_attempts N this (anthropic_body this sysPrompt messages) 0 None tr"

text \<open>
  \<open>decideAction\<close>.  \<open>callApi\<close> is declared to return a string, but returns whatever value the
  response held at \<open>text\<close>; \<open>parseAgentResponse\<close> calls \<open>raw.trim()\<close> on it, which throws a
  \<open>TypeError\<close> when it is not a string.  The exception of \<open>callApi\<close> leaves the method before
  the push.
\<close>

definition anthropic_decideAction ::
  "net \<Rightarrow> LLMRequest \<Rightarrow> adapter \<Rightarrow> api_event list
     \<Rightarrow> (api_error + json AgentAction) \<times> adapter \<times> api_event list" where
  "anthropic_decideAction N request this tr =
     (let this1 = (if length (previousActions request) = 0
                   then this\<lparr>conversationHistory := []\<rparr> else this);
          userMessage = buildUserMessage request;
          sysPrompt = systemPrompt request @ lit ''\<newline>\<newline>## Response Format\<newline>\<newline>''
                        @ ACTION_SCHEMA N;
          messages = conversationHistory this1 @ [\<lparr>role = lit ''user'', content = JStr userMessage\<rparr>]
      in case anthropic_callApi N this1 sysPrompt messages tr of
           (Inl e, tr') \<Rightarrow> (Inl e, this1, tr')
         | (Inr response, tr') \<Rightarrow>
             (let this2 = this1\<lparr>conversationHistory := conversationHistory this1
                            @ [\<lparr>role = lit ''user'', content = JStr userMessage\<rparr>,
                               \<lparr>role = lit ''assistant'', content = response\<rparr>]\<rparr>
              in (case response of
                    JStr raw \<Rightarrow> Inr (parseAgentResponse (JSON_parse N) raw)
                  | _ \<Rightarrow> Inl TypeError,
                  this2, tr')))"

subsection \<open>GitHub Models\<close>

definition GITHUB_MODELS_ENDPOINT :: jsstring where
  "GITHUB_MODELS_ENDPOINT = lit ''https://models.github.ai/inference/chat/completions''"

definition github_headers :: "adapter \<Rightarrow> (jsstring \<times> jsstring) list" where
  "github_headers this =
     [(lit ''Accept'', lit ''application/vnd.github+json''),
      (lit ''Authorization'', lit ''Bearer '' @ apiKey this),
      (lit ''X-GitHub-Api-Version'', lit ''2022-11-28''),
      (lit ''Content-Type'', lit ''application/json'')]"

text \<open>\<open>String.prototype.includes\<close>.\<close>

fun js_includes :: "jsstring \<Rightarrow> jsstring \<Rightarrow> bool" where
  "js_includes [] p = (p = [])"
| "js_includes (c # cs) p = (startsWith (c # cs) p \<or> js_includes cs p)"

text \<open>The double nearest to 0.2 is \<open>3602879701896397 * 2^-54\<close>.\<close>

definition github_body :: "adapter \<Rightarrow> message list \<Rightarrow> json" where
  "github_body this messages =
     JObj ([(lit ''model'', JStr (model this)),
            (lit ''messages'', JArr (map msg_json messages))]
           @ (if js_includes (model this) (lit ''gpt-5'')
              then [(lit ''max_completion_tokens'', JNum (Finite 1024 0))]
              else [(lit ''temperature'', JNum (Finite 3602879701896397 (- 54))),
                    (lit ''max_tokens'', JNum (Finite 1024 0))]))"

definition github_text :: "net \<Rightarrow> json \<Rightarrow> api_error + json" where
  "github_text N data =
     (case data of
        JNull \<Rightarrow> Inl TypeError
      | _ \<Rightarrow>
        (let c = opt_prop (opt_prop (opt_index0 (get_prop data (lit ''choices''))) (lit ''message''))
                   (lit ''content'')
         in case c of
              None \<Rightarrow> Inl (Err (lit ''Unexpected API response structure: ''
                                  @ take 500 (JSON_stringify N data)))
            | Some v \<Rightarrow>
                if truthy (Some v) then Inr v
                else Inl (Err (lit ''Unexpected API response structure: ''
                                 @ take 500 (JSON_stringify N data)))))"

function github_attempts ::
  "net \<Rightarrow> adapter \<Rightarrow> json \<Rightarrow> nat \<Rightarrow> api_error option \<Rightarrow> api_event list
     \<Rightarrow> (api_error + json) \<times> api_event list" where
  "github_attempts N this body attempt lastError tr =
     (if attempt \<le> MAX_RETRIES then
        (let answer = fetch N tr GITHUB_MODELS_ENDPOINT (github_headers this) body;
             tr1 = tr @ [ApiFetch GITHUB_MODELS_ENDPOINT (github_headers this) body answer]
         in case answer of
              Inl reason \<Rightarrow> (Inl (Rejected reason), tr1)
            | Inr response \<Rightarrow>
                if http_status response = 429 then
                  (let waitSec = rateLimitWait (retry_after response) attempt
                   in github_attempts N this body (attempt + 1)
                        (Some (Err (lit ''Rate limited (429)'')))
                        (tr1 @ [ApiSleep (waitSec * 1000)]))
                else if \<not> ok response then
                  (case body_text response of
                     Inl reason \<Rightarrow> (Inl (Rejected reason), tr1)
                   | Inr errBody \<Rightarrow>
                       (Inl (Err (lit ''GitHub Models API error '' @ show_nat (http_status response)
                                   @ lit '': '' @ take 500 errBody)), tr1))
                else
                  (case body_json response of
                     Inl reason \<Rightarrow> (Inl (Rejected reason), tr1)
                   | Inr data \<Rightarrow> (github_text N data, tr1)))
      else (Inl (case lastError of Some e \<Rightarrow> e | None \<Rightarrow> Err (lit ''Max retries exceeded'')), tr))"
  by pat_completeness auto
termination
  by (relation "measure (\<lambda>(N, this, body, attempt, lastError, tr). Suc MAX_RETRIES - attempt)")
     auto

definition github_callApi ::
  "net \<Rightarrow> adapter \<Rightarrow> message list \<Rightarrow> api_event list
     \<Rightarrow> (api_error + json) \<times> api_event list" where
  "github_callApi N this messages tr =
     github_attempts N this (github_body this messages) 0 None tr"

definition github_decideAction ::
  "net \<Rightarrow> LLMRequest \<Rightarrow> adapter \<Rightarrow> api_event list
     \<Rightarrow> (api_error + json AgentAction) \<times> adapter \<times> api_event list" where
  "github_decideAction N request this tr =
     (let this1 = (if length (previousActions request) = 0
                   then this\<lparr>conversationHistory := []\<rparr> else this);
          userMessage = buildUserMessage request;
          messages =
            [\<lparr>role = lit ''system'',
              content = JStr (systemPrompt request
                              @ lit ''\<newline>\<newline>## Response Format\<newline>\<newline>''
                              @ ACTION_SCHEMA N)\<rparr>]
            @ conversationHistory this1
            @ [\<lparr>role = lit ''user'', content = JStr userMessage\<rparr>]
      in case github_callApi N this1 messages tr of
           (Inl e, tr') \<Rightarrow> (Inl e, this1, tr')
         | (Inr response, tr') \<Rightarrow>
             (let this2 = this1\<lparr>conversationHistory := conversationHistory this1
                            @ [\<lparr>role = lit ''user'', content = JStr userMessage\<rparr>,
                               \<lparr>role = lit ''assistant'', content = response\<rparr>]\<rparr>
              in (case response of
                    JStr raw \<Rightarrow> Inr (parseAgentResponse (JSON_parse N) raw)
                  | _ \<Rightarrow> Inl TypeError,
                  this2, tr')))"

section \<open>Example environments and inputs\<close>

text \<open>
  An environment in which the subprocess answers by its arguments alone, as \<open>browser\<close> says,
  and every call of \<open>decideAction\<close> has the outcome \<open>answer\<close>.  The messages are those of V8
  for \<open>null.length\<close> and for a call of \<open>cmd.startsWith\<close> on a value without that method; an
  empty array and an empty object give the empty argument list, and the examples dispatch no
  other array or object.
\<close>

definition scripted_env ::
  "(jsstring list \<Rightarrow> exec_outcome) \<Rightarrow> jsstring + json AgentAction \<Rightarrow> env" where
  "scripted_env browser answer =
     \<lparr>exec = (\<lambda>tr args timeoutMs. browser args), decide = (\<lambda>tr request. answer),
      now = (\<lambda>tr. 0), shot_path = (\<lambda>tr testId stepNumber. lit ''shot.png''),
      SYSTEM_PROMPT = lit ''You are an expert manual tester.'',
      coerced_parts = (\<lambda>v. if v = JArr [] \<or> v = JObj [] then Some [] else None),
      raised_message =
        (\<lambda>v. if v = JNull
             then lit ''Cannot read properties of null (reading '' @ [squote] @ lit ''length''
                    @ [squote] @ lit '')''
             else lit ''cmd.startsWith is not a function'')\<rparr>"

text \<open>A browser whose every command succeeds with no output.\<close>

definition quiet_browser :: "jsstring list \<Rightarrow> exec_outcome" where
  "quiet_browser args = Exited [] []"


definition step1 :: TestStep where
  "step1 = \<lparr>step = 1, action = lit ''Enter tomsmith in the Username field'',
            expected = lit ''The username field contains tomsmith''\<rparr>"

definition step2 :: TestStep where
  "step2 = \<lparr>step = 2, action = lit ''Click Login'',
            expected = lit ''The page navigates to /secure''\<rparr>"

definition login_case :: TestCase where
  "login_case =
     \<lparr>tc_id = lit ''TC001'', tc_title = lit ''Valid login'', priority = lit ''P1'', tags = [],
      target_url = lit ''https://the-internet.herokuapp.com/login'', preconditions = [],
      site_context = None, steps = [step1, step2]\<rparr>"



text \<open>An adapter answer that declares the step done and passed, with a given outcome text.\<close>

definition declare_pass :: "jsstring \<Rightarrow> json AgentAction" where
  "declare_pass observed =
     \<lparr>thought = JStr (lit ''The expected result is visible''), commands = [], done = True,
      success = True, actual_result = JStr observed\<rparr>"

text \<open>An adapter answer that declares the step done and failed.\<close>

definition declare_fail :: "jsstring \<Rightarrow> json AgentAction" where
  "declare_fail observed =
     \<lparr>thought = JStr (lit ''The expected result is missing''), commands = [], done = True,
      success = False, actual_result = JStr observed\<rparr>"

text \<open>
  A network in which every \<open>fetch\<close> has the outcome \<open>answer\<close>, and a \<open>JSON.parse\<close> that
  rejects every text.
\<close>

definition scripted_net :: "jsstring + http_response \<Rightarrow> net" where
  "scripted_net answer =
     \<lparr>fetch = (\<lambda>tr u headers body. answer), JSON_parse = (\<lambda>s. None),
      JSON_stringify = (\<lambda>v. lit ''{}''), ACTION_SCHEMA = lit ''Respond with JSON only.''\<rparr>"

definition rate_limited :: "jsstring option \<Rightarrow> http_response" where
  "rate_limited hint =
     \<lparr>http_status = 429, retry_after = hint, body_text = Inr (lit ''Too many requests''),
      body_json = Inl (lit ''Unexpected token T in JSON'')\<rparr>"

definition server_error :: http_response where
  "server_error =
     \<lparr>http_status = 500, retry_after = None, body_text = Inr (lit ''internal error''),
      body_json = Inl (lit ''Unexpected token i in JSON'')\<rparr>"

text \<open>
  Two successful replies whose text is \<open>chatty_reply\<close>, in the shape of each provider.
\<close>

definition chatty_reply :: jsstring where
  "chatty_reply = lit ''Sure, I will click the button.''"

definition anthropic_reply :: http_response where
  \<open>anthropic_reply =
     \<lparr>http_status = 200, retry_after = None,
      body_text = Inr (lit ''{"content":[{"type":"text","text":"Sure, I will click the button."}]}''),
      body_json = Inr (JObj [(lit ''content'',
                              JArr [JObj [(lit ''type'', JStr (lit ''text'')),
                                          (lit ''text'', JStr chatty_reply)]])])\<rparr>\<close>

definition github_reply :: http_response where
  \<open>github_reply =
     \<lparr>http_status = 200, retry_after = None,
      body_text = Inr (lit ''{"choices":[{"message":{"content":"Sure, I will click the button."}}]}''),
      body_json = Inr (JObj [(lit ''choices'',
                              JArr [JObj [(lit ''message'',
                                           JObj [(lit ''content'', JStr chatty_reply)])]])])\<rparr>\<close>

definition some_adapter :: adapter where
  "some_adapter =
     \<lparr>apiKey = lit ''secret'', model = lit ''some-model'',
      conversationHistory = [\<lparr>role = lit ''user'', content = JStr (lit ''earlier question'')\<rparr>,
                             \<lparr>role = lit ''assistant'', content = JStr (lit ''earlier answer'')\<rparr>]\<rparr>"

definition first_request :: LLMRequest where
  "first_request =
     \<lparr>systemPrompt = lit ''You are an expert manual tester.'',
      stepDescription = lit ''Click Login'', expectedResult = lit ''The page navigates to /secure'',
      browserState = lit ''- button Login [ref=e1]'', previousActions = [],
      pageUrl = lit ''https://the-internet.herokuapp.com/login'', pageTitle = lit ''The Internet'',
      iteration = 1, maxIterations = 10\<rparr>"



text \<open>A later request of the same step, after one command was executed.\<close>

definition second_request :: LLMRequest where
  "second_request = first_request\<lparr>previousActions := [lit ''click @e1''], iteration := 2\<rparr>"

section \<open>Properties of the command parser\<close>

lemmas parse_eval =
  parseCommand_def lit_def is_space_def dquote_def squote_def balanced_quotes_def

lemma parseLoop_append:
  "parseLoop (xs @ ys) args cur q =
     (case parseLoop xs args cur q of (a, c, q') \<Rightarrow> parseLoop ys a c q')"
  by (induction xs args cur q rule: parseLoop.induct) simp_all

lemma parseLoop_open:
  "q \<notin> set rest \<Longrightarrow> parseLoop rest args cur (Some q) = (args, cur @ rest, Some q)"
  by (induction rest arbitrary: cur) auto

lemma parseLoop_plain:
  "plain_token t \<Longrightarrow> parseLoop (t @ rest) args cur None = parseLoop rest args (cur @ t) None"
  by (induction t arbitrary: cur) (simp_all add: plain_token_def)

lemma space_is_space: "is_space 0x20"
  by (simp add: is_space_def)

lemma space_not_quote: "(0x20 :: code_unit) \<noteq> dquote" "(0x20 :: code_unit) \<noteq> squote"
  by (simp_all add: dquote_def squote_def)

lemma parseLoop_join:
  "ts \<noteq> [] \<Longrightarrow> \<forall>t \<in> set ts. t \<noteq> [] \<and> plain_token t \<Longrightarrow>
     parseLoop (join_sp ts) args [] None = (args @ butlast ts, last ts, None)"
proof (induction ts arbitrary: args rule: join_sp.induct)
  case 1
  then show ?case by simp
next
  case (2 t)
  then show ?case using parseLoop_plain [of t "[]" args "[]"] by simp
next
  case (3 t u us)
  have "parseLoop (join_sp (t # u # us)) args [] None
      = parseLoop (0x20 # join_sp (u # us)) args t None"
    using 3(3) parseLoop_plain [of t "0x20 # join_sp (u # us)" args "[]"] by simp
  also have "\<dots> = parseLoop (join_sp (u # us)) (args @ [t]) [] None"
    using 3(3) by (simp add: space_is_space space_not_quote)
  also have "\<dots> = ((args @ [t]) @ butlast (u # us), last (u # us), None)"
    using 3(3) by (intro 3(1)) simp_all
  finally show ?case by simp
qed

lemma parseCommand_join:
  assumes "\<forall>t \<in> set ts. t \<noteq> [] \<and> plain_token t"
  shows "parseCommand (join_sp ts) = ts"
proof (cases "ts = []")
  case True
  then show ?thesis by (simp add: parseCommand_def)
next
  case False
  with assms have "last ts \<noteq> []" by auto
  with False assms show ?thesis
    by (simp add: parseCommand_def parseLoop_join)
qed

lemma parseLoop_args_nonempty:
  "parseLoop cmd args cur q = (args', cur', q') \<Longrightarrow> [] \<notin> set args \<Longrightarrow> [] \<notin> set args'"
  by (induction cmd args cur q rule: parseLoop.induct) (auto split: if_splits)

lemma parseCommand_nonempty: "[] \<notin> set (parseCommand cmd)"
proof -
  obtain a c q where r: "parseLoop cmd [] [] None = (a, c, q)"
    by (cases "parseLoop cmd [] [] None") auto
  then have "[] \<notin> set a" using parseLoop_args_nonempty [OF r] by simp
  with r show ?thesis by (auto simp: parseCommand_def)
qed

lemma parseLoop_unquoted:
  "parseLoop cmd args cur None = (args', cur', q') \<Longrightarrow>
   dquote \<notin> set cmd \<Longrightarrow> squote \<notin> set cmd \<Longrightarrow>
   list_all plain_token args \<Longrightarrow> plain_token cur \<Longrightarrow>
   list_all plain_token args' \<and> plain_token cur' \<and> q' = None"
proof (induction cmd arbitrary: args cur)
  case Nil
  then show ?case by simp
next
  case (Cons ch rest)
  from Cons.prems(2,3) have nq: "ch \<noteq> dquote" "ch \<noteq> squote"
    "dquote \<notin> set rest" "squote \<notin> set rest" by auto
  show ?case
  proof (cases "is_space ch")
    case True
    show ?thesis
    proof (cases "cur = []")
      case e: True
      with True nq Cons.prems(1) have "parseLoop rest args cur None = (args', cur', q')" by simp
      from Cons.IH [OF this nq(3,4) Cons.prems(4,5)] show ?thesis .
    next
      case e: False
      with True nq Cons.prems(1) have "parseLoop rest (args @ [cur]) [] None = (args', cur', q')"
        by simp
      from Cons.IH [OF this nq(3,4)] Cons.prems(4,5) show ?thesis
        by (simp add: plain_token_def)
    qed
  next
    case False
    with nq Cons.prems(1) have "parseLoop rest args (cur @ [ch]) None = (args', cur', q')" by simp
    from Cons.IH [OF this nq(3,4) Cons.prems(4)] Cons.prems(5) False nq(1,2) show ?thesis
      by (simp add: plain_token_def)
  qed
qed

lemma unquoted_command_plain_tokens:
  assumes "dquote \<notin> set cmd" "squote \<notin> set cmd"
  shows "list_all plain_token (parseCommand cmd)"
proof -
  obtain a c q where r: "parseLoop cmd [] [] None = (a, c, q)"
    by (cases "parseLoop cmd [] [] None") auto
  from parseLoop_unquoted [OF r assms] have "list_all plain_token a \<and> plain_token c"
    by (simp add: plain_token_def)
  with r show ?thesis by (simp add: parseCommand_def)
qed

text \<open>
  Claim C7, as stated: for every command string with balanced quotes, joining the parsed
  tokens with single spaces and parsing again gives the first token list.  This fails: the
  parser strips the quotes, so a token that came from a quoted span with a space in it is
  split by the second parse.  The string \<open>"a b"\<close> has balanced quotes and parses to the
  single token \<open>a b\<close>, which parses to the two tokens \<open>a\<close> and \<open>b\<close>.
\<close>

theorem reparse_quoted_counterexample:
  \<open>balanced_quotes (lit ''"a b"'')
   \<and> parseCommand (lit ''"a b"'') = [lit ''a b'']
   \<and> parseCommand (join_sp (parseCommand (lit ''"a b"''))) = [lit ''a'', lit ''b'']
   \<and> parseCommand (join_sp (parseCommand (lit ''"a b"''))) \<noteq> parseCommand (lit ''"a b"'')\<close>
  by (simp add: parse_eval)

text \<open>
  Claim C7, amended: for every command string whose parsed tokens hold neither whitespace
  nor a quote character (as is the case for every command written without quotes, by
  lemma \<open>unquoted_command_plain_tokens\<close>), joining
  the tokens with single spaces and parsing again gives the same token list.
\<close>

theorem reparse_plain_tokens:
  "\<forall>t \<in> set (parseCommand cmd). plain_token t \<Longrightarrow>
     parseCommand (join_sp (parseCommand cmd)) = parseCommand cmd"
  using parseCommand_nonempty [of cmd] by (intro parseCommand_join) auto

theorem reparse_plain_tokens_witness:
  \<open>list_all plain_token (parseCommand (lit ''click  @e3 ''))
   \<and> parseCommand (lit ''click  @e3 '') = [lit ''click'', lit ''@e3'']
   \<and> parseCommand (join_sp (parseCommand (lit ''click  @e3 '')))
       = parseCommand (lit ''click  @e3 '')\<close>
proof -
  have h: \<open>\<forall>t \<in> set (parseCommand (lit ''click  @e3 '')). plain_token t\<close>
    by (simp add: parse_eval plain_token_def)
  have e: \<open>parseCommand (lit ''click  @e3 '') = [lit ''click'', lit ''@e3'']\<close>
    by (simp add: parse_eval)
  from reparse_plain_tokens [OF h] h e show ?thesis by (simp add: list_all_iff)
qed

text \<open>
  Claim C8: the parser's documented examples.  \<open>fill @e2 "hello world"\<close> gives the three
  tokens \<open>fill\<close>, \<open>@e2\<close>, \<open>hello world\<close>; \<open>click @e3\<close> gives \<open>click\<close>, \<open>@e3\<close>;
  \<open>fill @e2 'some "value"'\<close> gives \<open>fill\<close>, \<open>@e2\<close>, \<open>some "value"\<close> with the double quotes
  kept; the empty string gives no token; and a quote that is never closed extends to the end
  of the string: when the text before the opening quote leaves the scan outside quotes with
  the tokens \<open>args\<close> and the pending token \<open>cur\<close>, and the quote character does not occur
  after it, everything after the quote is appended to the pending token, which becomes the
  last token (if it is not empty).
\<close>

theorem parseCommand_examples:
  \<open>parseCommand (lit ''fill @e2 "hello world"'') = [lit ''fill'', lit ''@e2'', lit ''hello world'']
   \<and> parseCommand (lit ''click @e3'') = [lit ''click'', lit ''@e3'']
   \<and> parseCommand (lit ''fill @e2 'some "value"'' @ [squote])
       = [lit ''fill'', lit ''@e2'', lit ''some "value"'']
   \<and> parseCommand [] = []
   \<and> (\<forall>pre q rest args cur.
        parseLoop pre [] [] None = (args, cur, None) \<and> (q = dquote \<or> q = squote)
          \<and> q \<notin> set rest
        \<longrightarrow> parseCommand (pre @ q # rest)
            = (if cur @ rest = [] then args else args @ [cur @ rest]))\<close>
proof -
  have 1: \<open>parseCommand (lit ''fill @e2 "hello world"'')
           = [lit ''fill'', lit ''@e2'', lit ''hello world'']\<close>
    by (simp add: parse_eval)
  have 2: \<open>parseCommand (lit ''click @e3'') = [lit ''click'', lit ''@e3'']\<close>
    by (simp add: parse_eval)
  have 3: \<open>parseCommand (lit ''fill @e2 'some "value"'' @ [squote])
           = [lit ''fill'', lit ''@e2'', lit ''some "value"'']\<close>
    by (simp add: parse_eval)
  have 4: \<open>parseCommand [] = []\<close>
    by (simp add: parseCommand_def)
  have 5: "parseCommand (pre @ q # rest)
             = (if cur @ rest = [] then args else args @ [cur @ rest])"
    if "parseLoop pre [] [] None = (args, cur, None)" "q = dquote \<or> q = squote"
       "q \<notin> set rest"
    for pre q rest args cur
  proof -
    from that(2) have "parseLoop (q # rest) args cur None = parseLoop rest args cur (Some q)"
      by auto
    with that(1,3) have "parseLoop (pre @ q # rest) [] [] None = (args, cur @ rest, Some q)"
      by (simp add: parseLoop_append parseLoop_open)
    then show ?thesis by (simp add: parseCommand_def)
  qed
  from 1 2 3 4 5 show ?thesis by blast
qed

theorem parseCommand_examples_witness:
  \<open>parseLoop (lit ''fill @e2 '') [] [] None = ([lit ''fill'', lit ''@e2''], [], None)
   \<and> dquote \<notin> set (lit ''hello wor'')
   \<and> parseCommand (lit ''fill @e2 "hello wor'') = [lit ''fill'', lit ''@e2'', lit ''hello wor'']\<close>
proof -
  have a: \<open>parseLoop (lit ''fill @e2 '') [] [] None = ([lit ''fill'', lit ''@e2''], [], None)\<close>
    by (simp add: parse_eval)
  have b: \<open>dquote \<notin> set (lit ''hello wor'')\<close>
    by (simp add: parse_eval)
  have c: \<open>lit ''fill @e2 "hello wor'' = lit ''fill @e2 '' @ dquote # lit ''hello wor''\<close>
    by (simp add: parse_eval)
  from parseCommand_examples a b
  have \<open>parseCommand (lit ''fill @e2 '' @ dquote # lit ''hello wor'')
          = (if [] @ lit ''hello wor'' = [] then [lit ''fill'', lit ''@e2'']
             else [lit ''fill'', lit ''@e2''] @ [[] @ lit ''hello wor''])\<close>
    by blast
  with a b c show ?thesis by (simp add: lit_def)
qed

text \<open>
  Claim C10: an empty quoted span produces no argument, so \<open>fill @e2 ""\<close> gives only
  \<open>fill\<close> and \<open>@e2\<close>; a quoted span that touches unquoted characters is merged with them
  into one token, so \<open>a"b c"d\<close> gives the single token \<open>ab cd\<close>.  In general: no command
  gives an empty argument; outside a quoted span, a span \<open>q b q\<close> (with \<open>q\<close> a quote character
  that does not occur in \<open>b\<close>) adds \<open>b\<close> to the token under construction and neither starts
  nor ends a token; an empty span \<open>q q\<close> that follows a prefix with balanced quotes can be
  deleted without changing the result; and \<open>a q b q d\<close> with \<open>a\<close> and \<open>d\<close> free of whitespace
  and quotes gives the single token \<open>a b d\<close> concatenated, or no token when that is empty.
\<close>

theorem parseCommand_empty_and_adjacent_spans:
  \<open>parseCommand (lit ''fill @e2 ""'') = [lit ''fill'', lit ''@e2'']
   \<and> parseCommand (lit ''a"b c"d'') = [lit ''ab cd'']
   \<and> (\<forall>cmd. [] \<notin> set (parseCommand cmd))
   \<and> (\<forall>q b rest args cur.
        (q = dquote \<or> q = squote) \<and> q \<notin> set b
        \<longrightarrow> parseLoop (q # b @ q # rest) args cur None = parseLoop rest args (cur @ b) None)
   \<and> (\<forall>pre q post.
        balanced_quotes pre \<and> (q = dquote \<or> q = squote)
        \<longrightarrow> parseCommand (pre @ q # q # post) = parseCommand (pre @ post))
   \<and> (\<forall>a q b d.
        plain_token a \<and> plain_token d \<and> (q = dquote \<or> q = squote) \<and> q \<notin> set b
        \<longrightarrow> parseCommand (a @ q # b @ q # d) = (if a @ b @ d = [] then [] else [a @ b @ d]))\<close>
proof -
  have span: "parseLoop (q # b @ q # rest) args cur None = parseLoop rest args (cur @ b) None"
    if "q = dquote \<or> q = squote" "q \<notin> set b" for q b rest args cur
  proof -
    have "parseLoop (q # b @ q # rest) args cur None = parseLoop (b @ q # rest) args cur (Some q)"
      using that(1) by auto
    also have "\<dots> = parseLoop (q # rest) args (cur @ b) (Some q)"
      using parseLoop_open [OF that(2), of args cur] by (simp add: parseLoop_append)
    also have "\<dots> = parseLoop rest args (cur @ b) None" by simp
    finally show ?thesis .
  qed
  have empty_span: "parseCommand (pre @ q # q # post) = parseCommand (pre @ post)"
    if "balanced_quotes pre" "q = dquote \<or> q = squote" for pre q post
  proof -
    obtain a c q' where r0: "parseLoop pre [] [] None = (a, c, q')"
      by (cases "parseLoop pre [] [] None") auto
    with that(1) have r: "parseLoop pre [] [] None = (a, c, None)"
      by (simp add: balanced_quotes_def)
    have "parseLoop (pre @ q # q # post) [] [] None = parseLoop (q # [] @ q # post) a c None"
      by (simp only: parseLoop_append r prod.case append_Nil)
    also have "\<dots> = parseLoop post a (c @ []) None"
      by (rule span) (simp_all add: that(2))
    also have "\<dots> = parseLoop (pre @ post) [] [] None"
      by (simp add: parseLoop_append r)
    finally show ?thesis by (simp only: parseCommand_def)
  qed
  have merged: "parseCommand (a @ q # b @ q # d) = (if a @ b @ d = [] then [] else [a @ b @ d])"
    if "plain_token a" "plain_token d" "q = dquote \<or> q = squote" "q \<notin> set b" for a q b d
  proof -
    have "parseLoop (a @ q # b @ q # d) [] [] None = parseLoop (q # b @ q # d) [] ([] @ a) None"
      by (rule parseLoop_plain) (rule that(1))
    also have "\<dots> = parseLoop d [] (([] @ a) @ b) None"
      by (rule span) (rule that(3), rule that(4))
    also have "\<dots> = parseLoop (d @ []) [] (a @ b) None" by simp
    also have "\<dots> = parseLoop [] [] ((a @ b) @ d) None"
      by (rule parseLoop_plain) (rule that(2))
    finally have "parseLoop (a @ q # b @ q # d) [] [] None = ([], a @ b @ d, None)" by simp
    then show ?thesis by (simp add: parseCommand_def)
  qed
  have e1: \<open>parseCommand (lit ''fill @e2 ""'') = [lit ''fill'', lit ''@e2'']\<close>
    by (simp add: parse_eval)
  have e2: \<open>parseCommand (lit ''a"b c"d'') = [lit ''ab cd'']\<close>
    by (simp add: parse_eval)
  have g1: "\<forall>cmd. [] \<notin> set (parseCommand cmd)"
    by (simp add: parseCommand_nonempty)
  have g2: "\<forall>q b rest args cur.
        (q = dquote \<or> q = squote) \<and> q \<notin> set b
        \<longrightarrow> parseLoop (q # b @ q # rest) args cur None = parseLoop rest args (cur @ b) None"
    using span by blast
  have g3: "\<forall>pre q post.
        balanced_quotes pre \<and> (q = dquote \<or> q = squote)
        \<longrightarrow> parseCommand (pre @ q # q # post) = parseCommand (pre @ post)"
    using empty_span by blast
  have g4: "\<forall>a q b d.
        plain_token a \<and> plain_token d \<and> (q = dquote \<or> q = squote) \<and> q \<notin> set b
        \<longrightarrow> parseCommand (a @ q # b @ q # d) = (if a @ b @ d = [] then [] else [a @ b @ d])"
    using merged by blast
  show ?thesis
    apply (intro conjI)
         apply (rule e1)
        apply (rule e2)
       apply (rule g1)
      apply (rule g2)
     apply (rule g3)
    apply (rule g4)
    done
qed

theorem parseCommand_empty_and_adjacent_spans_witness:
  "parseCommand (lit ''a'' @ dquote # lit ''b c'' @ dquote # lit ''d'') = [lit ''ab cd'']
   \<and> parseCommand ([] @ squote # [] @ squote # []) = []
   \<and> parseCommand (lit ''fill @e2 '' @ dquote # dquote # lit '' --force'')
       = parseCommand (lit ''fill @e2 '' @ lit '' --force'')
   \<and> parseLoop (squote # lit ''x y'' @ squote # lit '' z'') [lit ''fill''] (lit ''w'') None
       = parseLoop (lit '' z'') [lit ''fill''] (lit ''w'' @ lit ''x y'') None"
proof -
  note r = parseCommand_empty_and_adjacent_spans
  note span = r [THEN conjunct2, THEN conjunct2, THEN conjunct2, THEN conjunct1, rule_format]
  note empty_span = r [THEN conjunct2, THEN conjunct2, THEN conjunct2, THEN conjunct2,
                       THEN conjunct1, rule_format]
  note merged = r [THEN conjunct2, THEN conjunct2, THEN conjunct2, THEN conjunct2,
                   THEN conjunct2, rule_format]
  have w1: "parseCommand (lit ''a'' @ dquote # lit ''b c'' @ dquote # lit ''d'')
              = (if lit ''a'' @ lit ''b c'' @ lit ''d'' = [] then []
                 else [lit ''a'' @ lit ''b c'' @ lit ''d''])"
    by (rule merged) (simp add: plain_token_def lit_def is_space_def dquote_def squote_def)
  have w2: "parseCommand ([] @ squote # [] @ squote # [])
              = (if [] @ [] @ [] = ([] :: jsstring) then [] else [[] @ [] @ []])"
    by (rule merged) (simp add: plain_token_def)
  have w3: "parseCommand (lit ''fill @e2 '' @ dquote # dquote # lit '' --force'')
              = parseCommand (lit ''fill @e2 '' @ lit '' --force'')"
    by (rule empty_span) (simp add: balanced_quotes_def parse_eval)
  have w4: "parseLoop (squote # lit ''x y'' @ squote # lit '' z'') [lit ''fill''] (lit ''w'') None
              = parseLoop (lit '' z'') [lit ''fill''] (lit ''w'' @ lit ''x y'') None"
    by (rule span) (simp add: lit_def squote_def)
  from w1 w2 w3 w4 show ?thesis by (simp add: lit_def)
qed

section \<open>Simplifier setup\<close>

declare iterate.simps [simp del]
declare runSteps.simps(2) [simp del]
declare anthropic_attempts.simps [simp del]
declare github_attempts.simps [simp del]
declare show_nat.simps [simp del]

section \<open>Properties of the step loop\<close>

lemma count_decide_simps [simp]:
  "count_decide [] = 0"
  "count_decide (tr @ [EvExec a t out]) = count_decide tr"
  "count_decide (tr @ [EvSleep n]) = count_decide tr"
  "count_decide (tr @ [EvRaised v msg]) = count_decide tr"
  "count_decide (tr @ [EvDecide req ans]) = Suc (count_decide tr)"
  by (simp_all add: count_decide_def)

lemma thrown_simps [simp]:
  "thrown [] = []"
  "thrown (tr @ [EvExec a t out]) = thrown tr"
  "thrown (tr @ [EvSleep n]) = thrown tr"
  "thrown (tr @ [EvRaised v msg]) = thrown tr @ [msg]"
  "thrown (tr @ [EvDecide req (Inl msg)]) = thrown tr @ [msg]"
  "thrown (tr @ [EvDecide req (Inr act)]) = thrown tr"
  by (simp_all add: thrown_def)

lemma snd_runBrowserCommand:
  "snd (runBrowserCommand E args t tr) = tr @ [EvExec args t (exec E tr args t)]"
  by (simp add: runBrowserCommand_def Let_def)

lemma runBrowserCommand_quiet [simp]:
  "count_decide (snd (runBrowserCommand E args t tr)) = count_decide tr"
  "thrown (snd (runBrowserCommand E args t tr)) = thrown tr"
  by (simp_all add: snd_runBrowserCommand)

lemma capture_quiet [simp]:
  "count_decide (trace (capture E s)) = count_decide (trace s)"
  "thrown (trace (capture E s)) = thrown (trace s)"
  "allCommands (capture E s) = allCommands s"
  "pushed (capture E s) = pushed s"
  by (simp_all add: capture_def getSnapshot_def getUrl_def getTitle_def split_beta)

lemma takeStepScreenshot_quiet [simp]:
  "count_decide (snd (takeStepScreenshot E tid n tr)) = count_decide tr"
  "thrown (snd (takeStepScreenshot E tid n tr)) = thrown tr"
  by (simp_all add: takeStepScreenshot_def screenshot_cmd_def Let_def)

lemma dispatch_non_string_facts [simp]:
  "fst (dispatch_non_string E cmd s) = raised_message E cmd"
  "count_decide (trace (snd (dispatch_non_string E cmd s))) = count_decide (trace s)"
  "thrown (trace (snd (dispatch_non_string E cmd s))) = thrown (trace s) @ [raised_message E cmd]"
  by (simp_all add: dispatch_non_string_def Let_def split: option.splits)


lemma count_decide_runCommands [simp]:
  "count_decide (trace (snd (runCommands E cmds s))) = count_decide (trace s)"
proof (induction cmds arbitrary: s)
  case Nil
  then show ?case by simp
next
  case (Cons cmd cmds)
  then show ?case by (cases cmd) (simp_all add: Let_def split_beta)
qed


lemma runCommands_strings:
  "list_all is_string cmds \<Longrightarrow> fst (runCommands E cmds s) = None"
proof (induction cmds arbitrary: s)
  case Nil
  then show ?case by simp
next
  case (Cons cmd cmds)
  then show ?case by (cases cmd) (simp_all add: Let_def)
qed

lemma iterate_exhausted:
  "\<not> iter < MAX_ITERATIONS \<Longrightarrow> iterate E sp st iter s = (Inr (Pass, JStr []), s)"
  by (simp add: iterate.simps [of E sp st iter s])

lemma iterate_step:
  "iter < MAX_ITERATIONS \<Longrightarrow>
   iterate E sp st iter s =
     (case decide E (trace s) (mkRequest sp st iter s) of
        Inl msg \<Rightarrow>
          (Inl msg, s\<lparr>trace := trace s @ [EvDecide (mkRequest sp st iter s) (Inl msg)]\<rparr>)
      | Inr act \<Rightarrow>
          (case fst (runCommands E (commands act)
                  (s\<lparr>trace := trace s @ [EvDecide (mkRequest sp st iter s) (Inr act)]\<rparr>)) of
             Some msg \<Rightarrow>
               (Inl msg,
                snd (runCommands E (commands act)
                  (s\<lparr>trace := trace s @ [EvDecide (mkRequest sp st iter s) (Inr act)]\<rparr>)))
           | None \<Rightarrow>
               if done act
               then (Inr (if success act then Pass else Fail, actual_result act),
                     snd (runCommands E (commands act)
                       (s\<lparr>trace := trace s @ [EvDecide (mkRequest sp st iter s) (Inr act)]\<rparr>)))
               else iterate E sp st (iter + 1)
                      (capture E (snd (runCommands E (commands act)
                         (s\<lparr>trace := trace s
                              @ [EvDecide (mkRequest sp st iter s) (Inr act)]\<rparr>))))))"
  by (simp add: iterate.simps [of E sp st iter s] Let_def split_beta
           split: sum.splits option.splits)

text \<open>Induction along the iteration loop: downwards from the ceiling.\<close>

lemma iterate_induct:
  assumes stop: "\<And>iter s. \<not> iter < MAX_ITERATIONS \<Longrightarrow> P iter s"
      and step: "\<And>iter s. iter < MAX_ITERATIONS \<Longrightarrow> (\<And>s'. P (iter + 1) s') \<Longrightarrow> P iter s"
  shows "P iter s"
proof (induction "MAX_ITERATIONS - iter" arbitrary: iter s)
  case 0
  then show ?case by (intro stop) simp
next
  case (Suc n)
  then have lt: "iter < MAX_ITERATIONS" and n: "n = MAX_ITERATIONS - (iter + 1)" by simp_all
  show ?case by (rule step [OF lt]) (rule Suc.hyps(1) [OF n])
qed




lemma iterate_status:
  "fst (iterate E sp st iter s) = Inr (ss, ar) \<longrightarrow> ss = Pass \<or> ss = Fail"
proof (induction iter s rule: iterate_induct)
  case (1 iter s)
  then show ?case by (simp add: iterate_exhausted)
next
  case (2 iter s)
  let ?req = "mkRequest sp st iter s"
  show ?case
  proof (cases "decide E (trace s) ?req")
    case (Inl msg)
    with 2(1) show ?thesis by (simp add: iterate_step)
  next
    case (Inr act)
    let ?rc = "runCommands E (commands act) (s\<lparr>trace := trace s @ [EvDecide ?req (Inr act)]\<rparr>)"
    show ?thesis
    proof (cases "fst ?rc")
      case (Some msg)
      with 2(1) Inr show ?thesis by (simp add: iterate_step)
    next
      case None
      show ?thesis
      proof (cases "done act")
        case True
        with 2(1) Inr None show ?thesis by (simp add: iterate_step)
      next
        case False
        from 2(2) [of "capture E (snd ?rc)"] 2(1) Inr None False
        show ?thesis by (simp add: iterate_step)
      qed
    qed
  qed
qed

lemma tryBlock_cases:
  "tryBlock E sp st tr =
     (case iterate E sp st 0 (capture E (start_state tr)) of
        (Inl msg, s) \<Rightarrow> (Error, JStr (lit ''Error: '' @ msg), s)
      | (Inr (ss, ar), s) \<Rightarrow>
          if ss = Pass \<and> ar = JStr [] then (Fail, JStr timeout_message, s) else (ss, ar, s))"
  by (simp add: tryBlock_def Let_def)

lemma start_state_fields [simp]:
  "trace (start_state tr) = tr" "allCommands (start_state tr) = []" "pushed (start_state tr) = []"
  by (simp_all add: start_state_def)



lemma tryBlock_status: "fst (tryBlock E sp st tr) \<noteq> Skipped"
proof -
  let ?it = "iterate E sp st 0 (capture E (start_state tr))"
  show ?thesis
  proof (cases "fst ?it")
    case (Inl msg)
    then show ?thesis by (cases ?it) (simp add: tryBlock_cases)
  next
    case (Inr p)
    obtain ss ar where p: "p = (ss, ar)" by (cases p)
    with Inr iterate_status [of E sp st 0 _ ss ar] have "ss = Pass \<or> ss = Fail" by simp
    with Inr p show ?thesis by (cases ?it) (auto simp: tryBlock_cases)
  qed
qed


lemma runStep_fields:
  "status (fst (runStep E sp tid st tr)) = fst (tryBlock E sp st tr)"
  "actual (fst (runStep E sp tid st tr)) = fst (snd (tryBlock E sp st tr))"
  "r_step (fst (runStep E sp tid st tr)) = step st"
  "thrown (snd (runStep E sp tid st tr)) = thrown (trace (snd (snd (tryBlock E sp st tr))))"
  "count_decide (snd (runStep E sp tid st tr)) = count_decide (trace (snd (snd (tryBlock E sp st tr))))"
  "commands_executed (fst (runStep E sp tid st tr))
     = map JStr (allCommands (snd (snd (tryBlock E sp st tr))))
       @ pushed (snd (snd (tryBlock E sp st tr)))"
  by (simp_all add: runStep_def Let_def split_beta)

lemma runSteps_Cons:
  "runSteps E sp tid (st # rest) overall results tr =
     (if status (fst (runStep E sp tid st tr)) = Error
      then (Error, results @ [fst (runStep E sp tid st tr)], snd (runStep E sp tid st tr))
      else runSteps E sp tid rest
             (if status (fst (runStep E sp tid st tr)) = Pass then overall else Fail)
             (results @ [fst (runStep E sp tid st tr)]) (snd (runStep E sp tid st tr)))"
  by (simp add: runSteps.simps(2) split_beta Let_def)

lemma runSteps_inv:
  "runSteps E sp tid sts overall results tr = (overall', results', tr') \<Longrightarrow>
   Error \<notin> set (map status results) \<Longrightarrow>
   overall = (if Fail \<in> set (map status results) then Fail else Pass) \<Longrightarrow>
   (\<exists>new. results' = results @ new
      \<and> map r_step new = take (length new) (map step sts)
      \<and> (Error \<notin> set (map status new) \<longrightarrow> length new = length sts)
      \<and> (Error \<in> set (map status new) \<longrightarrow>
            last (map status new) = Error \<and> Error \<notin> set (butlast (map status new)))
      \<and> overall' = (if Error \<in> set (map status new) then Error
                     else if Fail \<in> set (map status (results @ new)) then Fail else Pass))"
proof (induction sts arbitrary: overall results tr)
  case Nil
  then show ?case by auto
next
  case (Cons st rest)
  let ?r = "fst (runStep E sp tid st tr)"
  let ?tr = "snd (runStep E sp tid st tr)"
  have ns: "status ?r \<noteq> Skipped"
    by (simp add: runStep_fields tryBlock_status)
  show ?case
  proof (cases "status ?r = Error")
    case True
    with Cons.prems(1) have "results' = results @ [?r]" "overall' = Error"
      by (simp_all add: runSteps_Cons)
    with True show ?thesis by (simp add: runStep_fields(3))
  next
    case False
    let ?o = "if status ?r = Pass then overall else Fail"
    from False Cons.prems(1)
    have run: "runSteps E sp tid rest ?o (results @ [?r]) ?tr = (overall', results', tr')"
      by (simp add: runSteps_Cons)
    from False ns have pf: "status ?r = Pass \<or> status ?r = Fail"
      by (cases "status ?r") simp_all
    have e: "Error \<notin> set (map status (results @ [?r]))"
      using False Cons.prems(2) by auto
    have o: "?o = (if Fail \<in> set (map status (results @ [?r])) then Fail else Pass)"
      using pf Cons.prems(3) by auto
    from Cons.IH [OF run e o] obtain new where n:
      "results' = (results @ [?r]) @ new"
      "map r_step new = take (length new) (map step rest)"
      "Error \<notin> set (map status new) \<longrightarrow> length new = length rest"
      "Error \<in> set (map status new) \<longrightarrow>
         last (map status new) = Error \<and> Error \<notin> set (butlast (map status new))"
      "overall' = (if Error \<in> set (map status new) then Error
                   else if Fail \<in> set (map status ((results @ [?r]) @ new)) then Fail else Pass)"
      by blast
    have "results' = results @ (?r # new)" using n(1) by simp
    moreover have "map r_step (?r # new) = take (length (?r # new)) (map step (st # rest))"
      using n(2) by (simp add: runStep_fields(3))
    moreover have "Error \<notin> set (map status (?r # new)) \<longrightarrow> length (?r # new) = length (st # rest)"
      using n(3) by simp
    moreover have "Error \<in> set (map status (?r # new)) \<longrightarrow>
            last (map status (?r # new)) = Error \<and> Error \<notin> set (butlast (map status (?r # new)))"
      using n(4) False by auto
    moreover have "overall' = (if Error \<in> set (map status (?r # new)) then Error
                     else if Fail \<in> set (map status (results @ (?r # new))) then Fail else Pass)"
      using n(5) False by auto
    ultimately show ?thesis by blast
  qed
qed

lemma runTestCase_fields:
  "report_status (fst (runTestCase E tc tr)) =
     fst (runSteps E (buildSystemPrompt E tc) (tc_id tc) (steps tc) Pass []
            (snd (waitForNetworkIdle E (snd (openUrl E (target_url tc) tr)))))"
  "report_steps (fst (runTestCase E tc tr)) =
     fst (snd (runSteps E (buildSystemPrompt E tc) (tc_id tc) (steps tc) Pass []
            (snd (waitForNetworkIdle E (snd (openUrl E (target_url tc) tr))))))"
  by (simp_all add: runTestCase_def Let_def split_beta)

lemma decide_scripted [simp]: "decide (scripted_env browser answer) tr req = answer"
  by (simp add: scripted_env_def)

lemma exec_scripted [simp]: "exec (scripted_env browser answer) tr args t = browser args"
  by (simp add: scripted_env_def)

lemma tryBlock_first_done:
  assumes "decide E (trace (capture E (start_state tr)))
             (mkRequest sp st 0 (capture E (start_state tr))) = Inr act"
    and "done act" "list_all is_string (commands act)"
  shows "fst (tryBlock E sp st tr)
           = (if success act \<and> actual_result act \<noteq> JStr [] then Pass else Fail)"
    and "fst (snd (tryBlock E sp st tr))
           = (if success act \<and> actual_result act = JStr [] then JStr timeout_message
              else actual_result act)"
    and "count_decide (trace (snd (snd (tryBlock E sp st tr)))) = count_decide tr + 1"
  using assms
  by (simp_all add: tryBlock_cases iterate_step MAX_ITERATIONS_def runCommands_strings split_beta)



lemma first_answer_pass_nonempty:
  assumes "decide E (trace (capture E (start_state tr)))
             (mkRequest sp st 0 (capture E (start_state tr))) = Inr act"
    and "done act" "success act" "actual_result act \<noteq> JStr []"
    and "list_all is_string (commands act)"
  shows "status (fst (runStep E sp tid st tr)) = Pass
         \<and> actual (fst (runStep E sp tid st tr)) = actual_result act
         \<and> count_decide (snd (runStep E sp tid st tr)) = count_decide tr + 1"
  using assms by (simp add: runStep_fields tryBlock_first_done)

section \<open>Claims about the step loop and the test case driver\<close>




text \<open>
  Claim C6, evaluated where the code departs from it: the decision source answers the first
  call with \<open>done\<close> and \<open>success\<close> both true and an empty \<open>actual_result\<close>.  The loop is left at
  the \<open>break\<close> after one call with \<open>stepStatus = "pass"\<close> and \<open>actualResult = ""\<close>, which is the
  very state that the test after the loop takes for an exhausted loop: the step is recorded
  as \<open>fail\<close> with the time-out text.  (With a non-empty \<open>actual_result\<close> the step is recorded
  as \<open>pass\<close> with that text after one call: lemma \<open>first_answer_pass_nonempty\<close>.)
\<close>

theorem first_answer_pass_with_empty_text:
  "status (fst (runStep (scripted_env quiet_browser (Inr (declare_pass []))) [] (lit ''TC001'') step1 []))
     = Fail
   \<and> actual (fst (runStep (scripted_env quiet_browser (Inr (declare_pass []))) [] (lit ''TC001'') step1 []))
     = JStr (lit ''Step timed out after 10 iterations without reaching a conclusion.'')
   \<and> count_decide (snd (runStep (scripted_env quiet_browser (Inr (declare_pass []))) [] (lit ''TC001'') step1 []))
     = 1"
  by (simp add: runStep_fields tryBlock_first_done declare_pass_def timeout_message_def)




text \<open>
  Claim C5: the status of the report is \<open>error\<close> if a recorded step has status \<open>error\<close>,
  else \<open>fail\<close> if one has status \<open>fail\<close>, else \<open>pass\<close>.  The recorded steps are an initial
  segment of the steps of the case, in order; when no step has status \<open>error\<close> every step of
  the case is recorded, whatever the number of \<open>fail\<close> steps; and a step with status \<open>error\<close>
  is the last one recorded.
\<close>

theorem aggregate_status_precedence:
  "report_status (fst (runTestCase E tc tr)) =
     (if Error \<in> set (map status (report_steps (fst (runTestCase E tc tr)))) then Error
      else if Fail \<in> set (map status (report_steps (fst (runTestCase E tc tr)))) then Fail
      else Pass)
   \<and> map r_step (report_steps (fst (runTestCase E tc tr)))
       = take (length (report_steps (fst (runTestCase E tc tr)))) (map step (steps tc))
   \<and> (Error \<notin> set (map status (report_steps (fst (runTestCase E tc tr)))) \<longrightarrow>
        length (report_steps (fst (runTestCase E tc tr))) = length (steps tc))
   \<and> (Error \<in> set (map status (report_steps (fst (runTestCase E tc tr)))) \<longrightarrow>
        last (map status (report_steps (fst (runTestCase E tc tr)))) = Error
        \<and> Error \<notin> set (butlast (map status (report_steps (fst (runTestCase E tc tr))))))"
proof -
  let ?tr = "snd (waitForNetworkIdle E (snd (openUrl E (target_url tc) tr)))"
  obtain ov rs tr' where run:
    "runSteps E (buildSystemPrompt E tc) (tc_id tc) (steps tc) Pass [] ?tr = (ov, rs, tr')"
    by (cases "runSteps E (buildSystemPrompt E tc) (tc_id tc) (steps tc) Pass [] ?tr") auto
  from runSteps_inv [OF run] obtain new where n:
      "rs = [] @ new"
      "map r_step new = take (length new) (map step (steps tc))"
      "Error \<notin> set (map status new) \<longrightarrow> length new = length (steps tc)"
      "Error \<in> set (map status new) \<longrightarrow>
         last (map status new) = Error \<and> Error \<notin> set (butlast (map status new))"
      "ov = (if Error \<in> set (map status new) then Error
                   else if Fail \<in> set (map status ([] @ new)) then Fail else Pass)"
    by auto
  have "report_status (fst (runTestCase E tc tr)) = ov" "report_steps (fst (runTestCase E tc tr)) = rs"
    using run by (simp_all add: runTestCase_fields)
  with n show ?thesis by simp
qed

theorem aggregate_status_precedence_witness:
  "map status (report_steps (fst (runTestCase
      (scripted_env quiet_browser (Inr (declare_fail (lit ''No success message'')))) login_case [])))
     = [Fail, Fail]
   \<and> report_status (fst (runTestCase
      (scripted_env quiet_browser (Inr (declare_fail (lit ''No success message'')))) login_case []))
     = Fail
   \<and> length (report_steps (fst (runTestCase
      (scripted_env quiet_browser (Inr (declare_fail (lit ''No success message'')))) login_case [])))
     = length (steps login_case)
   \<and> map status (report_steps (fst (runTestCase
      (scripted_env quiet_browser (Inl (lit ''Rate limited (429)''))) login_case [])))
     = [Error]
   \<and> report_status (fst (runTestCase
      (scripted_env quiet_browser (Inl (lit ''Rate limited (429)''))) login_case []))
     = Error
   \<and> map r_step (report_steps (fst (runTestCase
      (scripted_env quiet_browser (Inl (lit ''Rate limited (429)''))) login_case [])))
     = [1]"
proof -
  let ?E = "scripted_env quiet_browser (Inr (declare_fail (lit ''No success message'')))"
  let ?X = "scripted_env quiet_browser (Inl (lit ''Rate limited (429)''))"
  have d: "done (declare_fail (lit ''No success message''))"
          "\<not> success (declare_fail (lit ''No success message''))"
          "commands (declare_fail (lit ''No success message'')) = []"
    by (simp_all add: declare_fail_def)
  have s: "status (fst (runStep ?E sp tid st tr)) = Fail" for sp tid st tr
    using d by (simp add: runStep_fields tryBlock_first_done)
  have r: "runSteps ?E sp tid [step1, step2] Pass [] tr
          = (Fail, [fst (runStep ?E sp tid step1 tr),
                    fst (runStep ?E sp tid step2 (snd (runStep ?E sp tid step1 tr)))],
             snd (runStep ?E sp tid step2 (snd (runStep ?E sp tid step1 tr))))" for sp tid tr
    by (simp add: runSteps_Cons s)
  have c: "map status (report_steps (fst (runTestCase ?E login_case []))) = [Fail, Fail]"
    by (simp add: runTestCase_fields login_case_def r s)
  have x: "status (fst (runStep ?X sp tid st tr)) = Error" for sp tid st tr
    by (simp add: runStep_fields tryBlock_cases iterate_step MAX_ITERATIONS_def)
  have xs: "map status (report_steps (fst (runTestCase ?X login_case []))) = [Error]"
    by (simp add: runTestCase_fields login_case_def runSteps_Cons x)
  have l: "length (report_steps (fst (runTestCase ?X login_case []))) = 1"
    using arg_cong [OF xs, of length] by simp
  from aggregate_status_precedence [of ?E login_case "[]"] c
       aggregate_status_precedence [of ?X login_case "[]"] xs l
  show ?thesis by (simp add: login_case_def step1_def)
qed

section \<open>Properties of the transport and of response parsing\<close>

lemma count_fetch_simps [simp]:
  "count_fetch [] = 0"
  "count_fetch (ApiFetch u h b a # tr) = Suc (count_fetch tr)"
  "count_fetch (ApiSleep ms # tr) = count_fetch tr"
  "count_fetch (tr @ tr') = count_fetch tr + count_fetch tr'"
  by (simp_all add: count_fetch_def)

lemma sleeps_simps [simp]:
  "sleeps [] = []"
  "sleeps (ApiFetch u h b a # tr) = sleeps tr"
  "sleeps (ApiSleep ms # tr) = ms # sleeps tr"
  "sleeps (tr @ tr') = sleeps tr @ sleeps tr'"
  by (simp_all add: sleeps_def)

lemma anthropic_attempts_step:
  "attempt \<le> MAX_RETRIES \<Longrightarrow>
   anthropic_attempts N this body attempt lastError tr =
     (case fetch N tr ANTHROPIC_ENDPOINT (anthropic_headers this) body of
        Inl reason \<Rightarrow>
          (Inl (Rejected reason),
           tr @ [ApiFetch ANTHROPIC_ENDPOINT (anthropic_headers this) body (Inl reason)])
      | Inr response \<Rightarrow>
          if http_status response = 429 then
            anthropic_attempts N this body (attempt + 1) (Some (Err (lit ''Rate limited (429)'')))
              (tr @ [ApiFetch ANTHROPIC_ENDPOINT (anthropic_headers this) body (Inr response),
                     ApiSleep (rateLimitWait (retry_after response) attempt * 1000)])
          else if http_status response = 529 then
            anthropic_attempts N this body (attempt + 1)
              (Some (Err (lit ''Anthropic overloaded (529)'')))
              (tr @ [ApiFetch ANTHROPIC_ENDPOINT (anthropic_headers this) body (Inr response),
                     ApiSleep (min (15 * (attempt + 1)) 45 * 1000)])
          else if \<not> ok response then
            (case body_text response of
               Inl reason \<Rightarrow> Inl (Rejected reason)
             | Inr errBody \<Rightarrow>
                 Inl (Err (lit ''Anthropic API error '' @ show_nat (http_status response)
                            @ lit '': '' @ take 500 errBody)),
             tr @ [ApiFetch ANTHROPIC_ENDPOINT (anthropic_headers this) body (Inr response)])
          else
            (case body_json response of
               Inl reason \<Rightarrow> Inl (Rejected reason)
             | Inr data \<Rightarrow> anthropic_text N data,
             tr @ [ApiFetch ANTHROPIC_ENDPOINT (anthropic_headers this) body (Inr response)]))"
  by (simp add: anthropic_attempts.simps [of N this body attempt lastError tr] Let_def
           split: sum.splits)

lemma anthropic_attempts_exhausted:
  "\<not> attempt \<le> MAX_RETRIES \<Longrightarrow>
   anthropic_attempts N this body attempt lastError tr =
     (Inl (case lastError of Some e \<Rightarrow> e | None \<Rightarrow> Err (lit ''Max retries exceeded'')), tr)"
  by (simp add: anthropic_attempts.simps [of N this body attempt lastError tr])

lemma github_attempts_step:
  "attempt \<le> MAX_RETRIES \<Longrightarrow>
   github_attempts N this body attempt lastError tr =
     (case fetch N tr GITHUB_MODELS_ENDPOINT (github_headers this) body of
        Inl reason \<Rightarrow>
          (Inl (Rejected reason),
           tr @ [ApiFetch GITHUB_MODELS_ENDPOINT (github_headers this) body (Inl reason)])
      | Inr response \<Rightarrow>
          if http_status response = 429 then
            github_attempts N this body (attempt + 1) (Some (Err (lit ''Rate limited (429)'')))
              (tr @ [ApiFetch GITHUB_MODELS_ENDPOINT (github_headers this) body (Inr response),
                     ApiSleep (rateLimitWait (retry_after response) attempt * 1000)])
          else if \<not> ok response then
            (case body_text response of
               Inl reason \<Rightarrow> Inl (Rejected reason)
             | Inr errBody \<Rightarrow>
                 Inl (Err (lit ''GitHub Models API error '' @ show_nat (http_status response)
                            @ lit '': '' @ take 500 errBody)),
             tr @ [ApiFetch GITHUB_MODELS_ENDPOINT (github_headers this) body (Inr response)])
          else
            (case body_json response of
               Inl reason \<Rightarrow> Inl (Rejected reason)
             | Inr data \<Rightarrow> github_text N data,
             tr @ [ApiFetch GITHUB_MODELS_ENDPOINT (github_headers this) body (Inr response)]))"
  by (simp add: github_attempts.simps [of N this body attempt lastError tr] Let_def
           split: sum.splits)

lemma github_attempts_exhausted:
  "\<not> attempt \<le> MAX_RETRIES \<Longrightarrow>
   github_attempts N this body attempt lastError tr =
     (Inl (case lastError of Some e \<Rightarrow> e | None \<Rightarrow> Err (lit ''Max retries exceeded'')), tr)"
  by (simp add: github_attempts.simps [of N this body attempt lastError tr])

lemma anthropic_attempts_fetches:
  "count_fetch (snd (anthropic_attempts N this body attempt lastError tr))
     \<le> count_fetch tr + (Suc MAX_RETRIES - attempt)"
proof (induction N this body attempt lastError tr rule: anthropic_attempts.induct)
  case (1 N this body attempt lastError tr)
  show ?case
  proof (cases "attempt \<le> MAX_RETRIES")
    case False
    then show ?thesis by (simp add: anthropic_attempts_exhausted)
  next
    case True
    let ?f = "fetch N tr ANTHROPIC_ENDPOINT (anthropic_headers this) body"
    let ?tr1 = "tr @ [ApiFetch ANTHROPIC_ENDPOINT (anthropic_headers this) body ?f]"
    show ?thesis
    proof (cases ?f)
      case (Inl reason)
      with True show ?thesis by (simp add: anthropic_attempts_step)
    next
      case (Inr response)
      consider (a) "http_status response = 429"
        | (b) "http_status response \<noteq> 429" "http_status response = 529"
        | (c) "http_status response \<noteq> 429" "http_status response \<noteq> 529"
        by blast
      then show ?thesis
      proof cases
        case a
        from "1.IH"(1) [OF True refl refl Inr a refl] True Inr a
        show ?thesis by (simp add: anthropic_attempts_step)
      next
        case b
        from "1.IH"(2) [OF True refl refl Inr b(1) b(2) refl] True Inr b
        show ?thesis by (simp add: anthropic_attempts_step)
      next
        case c
        with True Inr show ?thesis by (auto simp: anthropic_attempts_step)
      qed
    qed
  qed
qed

lemma github_attempts_fetches:
  "count_fetch (snd (github_attempts N this body attempt lastError tr))
     \<le> count_fetch tr + (Suc MAX_RETRIES - attempt)"
proof (induction N this body attempt lastError tr rule: github_attempts.induct)
  case (1 N this body attempt lastError tr)
  show ?case
  proof (cases "attempt \<le> MAX_RETRIES")
    case False
    then show ?thesis by (simp add: github_attempts_exhausted)
  next
    case True
    let ?f = "fetch N tr GITHUB_MODELS_ENDPOINT (github_headers this) body"
    show ?thesis
    proof (cases ?f)
      case (Inl reason)
      with True show ?thesis by (simp add: github_attempts_step)
    next
      case (Inr response)
      show ?thesis
      proof (cases "http_status response = 429")
        case a: True
        from "1.IH" [OF True refl refl Inr a refl] True Inr a
        show ?thesis by (simp add: github_attempts_step)
      next
        case False
        with True Inr show ?thesis by (auto simp: github_attempts_step)
      qed
    qed
  qed
qed

lemma rateLimitWait_hint:
  "parseInt10 h = Some n \<Longrightarrow> 1 \<le> n \<Longrightarrow> n \<le> 60 \<Longrightarrow> rateLimitWait (Some h) attempt = nat n"
  by (auto simp: rateLimitWait_def parseInt10_def Let_def)

lemma rateLimitWait_fallback:
  "\<not> (\<exists>h n. hint = Some h \<and> parseInt10 h = Some n \<and> 1 \<le> n \<and> n \<le> 60) \<Longrightarrow>
     rateLimitWait hint attempt = min (10 * (attempt + 1)) 30"
  by (auto simp: rateLimitWait_def Let_def split: option.splits)



lemma fatal_message_distinct:
  "lit ''Anthropic API error '' @ rest \<noteq> lit ''Rate limited (429)''"
  "lit ''Anthropic API error '' @ rest \<noteq> lit ''Anthropic overloaded (529)''"
  "lit ''GitHub Models API error '' @ rest \<noteq> lit ''Rate limited (429)''"
  by (simp_all add: lit_def)

lemma show_nat_500: "show_nat 500 = lit ''500''"
  by (simp add: show_nat.simps [of 500] show_nat.simps [of 50] show_nat.simps [of 5] lit_def)

lemma parseInt10_5: "parseInt10 (lit ''5'') = Some 5"
  by (simp add: parseInt10_def lit_def is_space_def is_digit_def Let_def)

lemma parseInt10_120: "parseInt10 (lit ''120'') = Some 120"
  by (simp add: parseInt10_def lit_def is_space_def is_digit_def Let_def)

section \<open>Claims about the adapters\<close>



text \<open>
  Claim C3, for the transport of both adapters.  A 429 response on one of the four attempts
  (numbered 0 to 3) is followed by a pause of \<open>rateLimitWait\<close> seconds and by the next turn of
  the loop, with \<open>Rate limited (429)\<close> as the last error; \<open>rateLimitWait\<close> is the retry-after
  hint when \<open>parseInt\<close> reads from it an integer from 1 to 60, and \<open>min(10 * (attempt + 1), 30)\<close>
  otherwise.  After the fourth attempt the loop ends and the last error is thrown, so no call
  of \<open>callApi\<close> makes more than four requests.  A response that is not \<open>ok\<close> with a status
  other than 429 (and, for Anthropic, 529) ends the call at once, with no pause and no further
  request, by an error that differs from the transient ones: \<open>... API error\<close>, the status and
  the first 500 code units of the body when the body can be read.
\<close>

theorem retry_policy:
  "(\<forall>N this body attempt lastError tr response.
      attempt \<le> 3
      \<and> fetch N tr ANTHROPIC_ENDPOINT (anthropic_headers this) body = Inr response
      \<and> http_status response = 429
      \<longrightarrow> anthropic_attempts N this body attempt lastError tr
          = anthropic_attempts N this body (attempt + 1) (Some (Err (lit ''Rate limited (429)'')))
              (tr @ [ApiFetch ANTHROPIC_ENDPOINT (anthropic_headers this) body (Inr response),
                     ApiSleep (rateLimitWait (retry_after response) attempt * 1000)]))
   \<and> (\<forall>N this body attempt lastError tr response.
      attempt \<le> 3
      \<and> fetch N tr GITHUB_MODELS_ENDPOINT (github_headers this) body = Inr response
      \<and> http_status response = 429
      \<longrightarrow> github_attempts N this body attempt lastError tr
          = github_attempts N this body (attempt + 1) (Some (Err (lit ''Rate limited (429)'')))
              (tr @ [ApiFetch GITHUB_MODELS_ENDPOINT (github_headers this) body (Inr response),
                     ApiSleep (rateLimitWait (retry_after response) attempt * 1000)]))
   \<and> (\<forall>h n attempt.
      parseInt10 h = Some n \<and> 1 \<le> n \<and> n \<le> 60 \<longrightarrow> rateLimitWait (Some h) attempt = nat n)
   \<and> (\<forall>hint attempt.
      \<not> (\<exists>h n. hint = Some h \<and> parseInt10 h = Some n \<and> 1 \<le> n \<and> n \<le> 60)
      \<longrightarrow> rateLimitWait hint attempt = min (10 * (attempt + 1)) 30)
   \<and> (\<forall>N this body e tr. anthropic_attempts N this body 4 (Some e) tr = (Inl e, tr))
   \<and> (\<forall>N this body e tr. github_attempts N this body 4 (Some e) tr = (Inl e, tr))
   \<and> (\<forall>N this sysPrompt messages tr.
        count_fetch (snd (anthropic_callApi N this sysPrompt messages tr)) \<le> count_fetch tr + 4)
   \<and> (\<forall>N this messages tr.
        count_fetch (snd (github_callApi N this messages tr)) \<le> count_fetch tr + 4)
   \<and> (\<forall>N this body attempt lastError tr response.
      attempt \<le> 3
      \<and> fetch N tr ANTHROPIC_ENDPOINT (anthropic_headers this) body = Inr response
      \<and> \<not> ok response \<and> http_status response \<noteq> 429 \<and> http_status response \<noteq> 529
      \<longrightarrow> (\<exists>e. anthropic_attempts N this body attempt lastError tr
                 = (Inl e, tr @ [ApiFetch ANTHROPIC_ENDPOINT (anthropic_headers this) body
                                   (Inr response)])
               \<and> e \<noteq> Err (lit ''Rate limited (429)'')
               \<and> e \<noteq> Err (lit ''Anthropic overloaded (529)'')
               \<and> (\<forall>errBody. body_text response = Inr errBody
                     \<longrightarrow> e = Err (lit ''Anthropic API error '' @ show_nat (http_status response)
                                   @ lit '': '' @ take 500 errBody))))
   \<and> (\<forall>N this body attempt lastError tr response.
      attempt \<le> 3
      \<and> fetch N tr GITHUB_MODELS_ENDPOINT (github_headers this) body = Inr response
      \<and> \<not> ok response \<and> http_status response \<noteq> 429
      \<longrightarrow> (\<exists>e. github_attempts N this body attempt lastError tr
                 = (Inl e, tr @ [ApiFetch GITHUB_MODELS_ENDPOINT (github_headers this) body
                                   (Inr response)])
               \<and> e \<noteq> Err (lit ''Rate limited (429)'')
               \<and> (\<forall>errBody. body_text response = Inr errBody
                     \<longrightarrow> e = Err (lit ''GitHub Models API error '' @ show_nat (http_status response)
                                   @ lit '': '' @ take 500 errBody))))"
proof (intro conjI allI impI)
  fix N :: net and this :: adapter and body :: json and attempt :: nat
    and lastError :: "api_error option" and tr :: "api_event list" and response :: http_response
  assume "attempt \<le> 3
      \<and> fetch N tr ANTHROPIC_ENDPOINT (anthropic_headers this) body = Inr response
      \<and> http_status response = 429"
  then show "anthropic_attempts N this body attempt lastError tr
          = anthropic_attempts N this body (attempt + 1) (Some (Err (lit ''Rate limited (429)'')))
              (tr @ [ApiFetch ANTHROPIC_ENDPOINT (anthropic_headers this) body (Inr response),
                     ApiSleep (rateLimitWait (retry_after response) attempt * 1000)])"
    by (simp add: anthropic_attempts_step MAX_RETRIES_def)
next
  fix N :: net and this :: adapter and body :: json and attempt :: nat
    and lastError :: "api_error option" and tr :: "api_event list" and response :: http_response
  assume "attempt \<le> 3
      \<and> fetch N tr GITHUB_MODELS_ENDPOINT (github_headers this) body = Inr response
      \<and> http_status response = 429"
  then show "github_attempts N this body attempt lastError tr
          = github_attempts N this body (attempt + 1) (Some (Err (lit ''Rate limited (429)'')))
              (tr @ [ApiFetch GITHUB_MODELS_ENDPOINT (github_headers this) body (Inr response),
                     ApiSleep (rateLimitWait (retry_after response) attempt * 1000)])"
    by (simp add: github_attempts_step MAX_RETRIES_def)
next
  fix h n attempt
  assume "parseInt10 h = Some n \<and> 1 \<le> n \<and> n \<le> 60"
  then show "rateLimitWait (Some h) attempt = nat n"
    by (simp add: rateLimitWait_hint)
next
  fix hint attempt
  assume "\<not> (\<exists>h n. hint = Some h \<and> parseInt10 h = Some n \<and> 1 \<le> n \<and> n \<le> 60)"
  then show "rateLimitWait hint attempt = min (10 * (attempt + 1)) 30"
    by (rule rateLimitWait_fallback)
next
  fix N this body e tr
  show "anthropic_attempts N this body 4 (Some e) tr = (Inl e, tr)"
    by (simp add: anthropic_attempts_exhausted MAX_RETRIES_def)
next
  fix N this body e tr
  show "github_attempts N this body 4 (Some e) tr = (Inl e, tr)"
    by (simp add: github_attempts_exhausted MAX_RETRIES_def)
next
  fix N this sysPrompt messages tr
  show "count_fetch (snd (anthropic_callApi N this sysPrompt messages tr)) \<le> count_fetch tr + 4"
    using anthropic_attempts_fetches [of N this "anthropic_body this sysPrompt messages" 0 None tr]
    by (simp add: anthropic_callApi_def MAX_RETRIES_def)
next
  fix N this messages tr
  show "count_fetch (snd (github_callApi N this messages tr)) \<le> count_fetch tr + 4"
    using github_attempts_fetches [of N this "github_body this messages" 0 None tr]
    by (simp add: github_callApi_def MAX_RETRIES_def)
next
  fix N :: net and this :: adapter and body :: json and attempt :: nat
    and lastError :: "api_error option" and tr :: "api_event list" and response :: http_response
  assume "attempt \<le> 3
      \<and> fetch N tr ANTHROPIC_ENDPOINT (anthropic_headers this) body = Inr response
      \<and> \<not> ok response \<and> http_status response \<noteq> 429 \<and> http_status response \<noteq> 529"
  then show "\<exists>e. anthropic_attempts N this body attempt lastError tr
                 = (Inl e, tr @ [ApiFetch ANTHROPIC_ENDPOINT (anthropic_headers this) body
                                   (Inr response)])
               \<and> e \<noteq> Err (lit ''Rate limited (429)'')
               \<and> e \<noteq> Err (lit ''Anthropic overloaded (529)'')
               \<and> (\<forall>errBody. body_text response = Inr errBody
                     \<longrightarrow> e = Err (lit ''Anthropic API error '' @ show_nat (http_status response)
                                   @ lit '': '' @ take 500 errBody))"
    by (cases "body_text response")
       (simp_all add: anthropic_attempts_step MAX_RETRIES_def fatal_message_distinct)
next
  fix N :: net and this :: adapter and body :: json and attempt :: nat
    and lastError :: "api_error option" and tr :: "api_event list" and response :: http_response
  assume "attempt \<le> 3
      \<and> fetch N tr GITHUB_MODELS_ENDPOINT (github_headers this) body = Inr response
      \<and> \<not> ok response \<and> http_status response \<noteq> 429"
  then show "\<exists>e. github_attempts N this body attempt lastError tr
                 = (Inl e, tr @ [ApiFetch GITHUB_MODELS_ENDPOINT (github_headers this) body
                                   (Inr response)])
               \<and> e \<noteq> Err (lit ''Rate limited (429)'')
               \<and> (\<forall>errBody. body_text response = Inr errBody
                     \<longrightarrow> e = Err (lit ''GitHub Models API error '' @ show_nat (http_status response)
                                   @ lit '': '' @ take 500 errBody))"
    by (cases "body_text response")
       (simp_all add: github_attempts_step MAX_RETRIES_def fatal_message_distinct)
qed

theorem retry_policy_witness:
  "fst (anthropic_callApi (scripted_net (Inr (rate_limited (Some (lit ''5''))))) some_adapter [] [] [])
     = Inl (Err (lit ''Rate limited (429)''))
   \<and> count_fetch (snd (anthropic_callApi (scripted_net (Inr (rate_limited (Some (lit ''5'')))))
        some_adapter [] [] [])) = 4
   \<and> sleeps (snd (anthropic_callApi (scripted_net (Inr (rate_limited (Some (lit ''5'')))))
        some_adapter [] [] [])) = [5000, 5000, 5000, 5000]
   \<and> sleeps (snd (github_callApi (scripted_net (Inr (rate_limited (Some (lit ''120'')))))
        some_adapter [] [])) = [10000, 20000, 30000, 30000]
   \<and> fst (github_callApi (scripted_net (Inr server_error)) some_adapter [] [])
     = Inl (Err (lit ''GitHub Models API error 500: internal error''))
   \<and> count_fetch (snd (github_callApi (scripted_net (Inr server_error)) some_adapter [] [])) = 1
   \<and> sleeps (snd (github_callApi (scripted_net (Inr server_error)) some_adapter [] [])) = []
   \<and> fst (anthropic_callApi (scripted_net (Inr server_error)) some_adapter [] [] [])
     = Inl (Err (lit ''Anthropic API error 500: internal error''))
   \<and> count_fetch (snd (anthropic_callApi (scripted_net (Inr server_error)) some_adapter [] [] [])) = 1"
proof -
  note r = retry_policy
  note a429 = r [THEN conjunct1, rule_format]
  note g429 = r [THEN conjunct2, THEN conjunct1, rule_format]
  note hint = r [THEN conjunct2, THEN conjunct2, THEN conjunct1, rule_format]
  note fallback = r [THEN conjunct2, THEN conjunct2, THEN conjunct2, THEN conjunct1, rule_format]
  note a_end = r [THEN conjunct2, THEN conjunct2, THEN conjunct2, THEN conjunct2, THEN conjunct1,
                  rule_format]
  note g_end = r [THEN conjunct2, THEN conjunct2, THEN conjunct2, THEN conjunct2, THEN conjunct2,
                  THEN conjunct1, rule_format]
  note a_fatal = r [THEN conjunct2, THEN conjunct2, THEN conjunct2, THEN conjunct2, THEN conjunct2,
                    THEN conjunct2, THEN conjunct2, THEN conjunct2, THEN conjunct1, rule_format]
  note g_fatal = r [THEN conjunct2, THEN conjunct2, THEN conjunct2, THEN conjunct2, THEN conjunct2,
                    THEN conjunct2, THEN conjunct2, THEN conjunct2, THEN conjunct2, rule_format]
  let ?N5 = "scripted_net (Inr (rate_limited (Some (lit ''5''))))"
  let ?N120 = "scripted_net (Inr (rate_limited (Some (lit ''120''))))"
  let ?N500 = "scripted_net (Inr server_error)"
  have f5: "fetch ?N5 tr u h b = Inr (rate_limited (Some (lit ''5'')))" for tr u h b
    by (simp add: scripted_net_def)
  have f120: "fetch ?N120 tr u h b = Inr (rate_limited (Some (lit ''120'')))" for tr u h b
    by (simp add: scripted_net_def)
  have f500: "fetch ?N500 tr u h b = Inr server_error" for tr u h b
    by (simp add: scripted_net_def)
  have s429: "http_status (rate_limited x) = 429" "retry_after (rate_limited x) = x" for x
    by (simp_all add: rate_limited_def)
  have w5: "rateLimitWait (Some (lit ''5'')) k = 5" for k
    using hint [of "lit ''5''" 5 k] by (simp add: parseInt10_5)
  have w120: "rateLimitWait (Some (lit ''120'')) k = min (10 * (k + 1)) 30" for k
    by (rule fallback) (simp add: parseInt10_120)
  let ?fa = "\<lambda>this body. ApiFetch ANTHROPIC_ENDPOINT (anthropic_headers this) body
                 (Inr (rate_limited (Some (lit ''5''))))"
  let ?fg = "\<lambda>this body. ApiFetch GITHUB_MODELS_ENDPOINT (github_headers this) body
                 (Inr (rate_limited (Some (lit ''120''))))"
  let ?e = "Some (Err (lit ''Rate limited (429)''))"
  have a_step: "anthropic_attempts ?N5 this body k e tr = anthropic_attempts ?N5 this body k' ?e tr'"
    if "k \<le> 3" "k' = k + 1" "tr' = tr @ [?fa this body, ApiSleep 5000]"
    for k k' this body e tr tr'
    using a429 [of k ?N5 tr this body "rate_limited (Some (lit ''5''))" e] that
    by (simp add: f5 s429 w5)
  have g_step: "github_attempts ?N120 this body k e tr = github_attempts ?N120 this body k' ?e tr'"
    if "k \<le> 3" "k' = k + 1" "tr' = tr @ [?fg this body, ApiSleep ms]"
       "ms = min (10 * (k + 1)) 30 * 1000"
    for k k' this body e tr tr' ms
    using g429 [of k ?N120 tr this body "rate_limited (Some (lit ''120''))" e] that
    by (simp add: f120 s429 w120)
  have a_run: "anthropic_attempts ?N5 this body 0 None []
      = (Inl (Err (lit ''Rate limited (429)'')),
         [?fa this body, ApiSleep 5000, ?fa this body, ApiSleep 5000,
          ?fa this body, ApiSleep 5000, ?fa this body, ApiSleep 5000])" for this body
  proof -
    have "anthropic_attempts ?N5 this body 0 None []
            = anthropic_attempts ?N5 this body 1 ?e [?fa this body, ApiSleep 5000]"
      by (rule a_step [where tr = "[]"]) simp_all
    also have "\<dots> = anthropic_attempts ?N5 this body 2 ?e
            [?fa this body, ApiSleep 5000, ?fa this body, ApiSleep 5000]"
      by (rule a_step [where tr = "[?fa this body, ApiSleep 5000]"]) simp_all
    also have "\<dots> = anthropic_attempts ?N5 this body 3 ?e
            [?fa this body, ApiSleep 5000, ?fa this body, ApiSleep 5000,
             ?fa this body, ApiSleep 5000]"
      by (rule a_step [where tr = "[?fa this body, ApiSleep 5000, ?fa this body, ApiSleep 5000]"])
         simp_all
    also have "\<dots> = anthropic_attempts ?N5 this body 4 ?e
            [?fa this body, ApiSleep 5000, ?fa this body, ApiSleep 5000,
             ?fa this body, ApiSleep 5000, ?fa this body, ApiSleep 5000]"
      by (rule a_step [where tr = "[?fa this body, ApiSleep 5000, ?fa this body, ApiSleep 5000,
                                    ?fa this body, ApiSleep 5000]"]) simp_all
    also have "\<dots> = (Inl (Err (lit ''Rate limited (429)'')),
            [?fa this body, ApiSleep 5000, ?fa this body, ApiSleep 5000,
             ?fa this body, ApiSleep 5000, ?fa this body, ApiSleep 5000])"
      by (rule a_end)
    finally show ?thesis .
  qed
  have g_run: "sleeps (snd (github_attempts ?N120 this body 0 None []))
      = [10000, 20000, 30000, 30000]" for this body
  proof -
    have "github_attempts ?N120 this body 0 None []
            = github_attempts ?N120 this body 1 ?e [?fg this body, ApiSleep 10000]"
      by (rule g_step [where tr = "[]"]) simp_all
    also have "\<dots> = github_attempts ?N120 this body 2 ?e
            [?fg this body, ApiSleep 10000, ?fg this body, ApiSleep 20000]"
      by (rule g_step [where tr = "[?fg this body, ApiSleep 10000]"]) simp_all
    also have "\<dots> = github_attempts ?N120 this body 3 ?e
            [?fg this body, ApiSleep 10000, ?fg this body, ApiSleep 20000,
             ?fg this body, ApiSleep 30000]"
      by (rule g_step [where tr = "[?fg this body, ApiSleep 10000, ?fg this body, ApiSleep 20000]"])
         simp_all
    also have "\<dots> = github_attempts ?N120 this body 4 ?e
            [?fg this body, ApiSleep 10000, ?fg this body, ApiSleep 20000,
             ?fg this body, ApiSleep 30000, ?fg this body, ApiSleep 30000]"
      by (rule g_step [where tr = "[?fg this body, ApiSleep 10000, ?fg this body, ApiSleep 20000,
                                    ?fg this body, ApiSleep 30000]"]) simp_all
    also have "\<dots> = (Inl (Err (lit ''Rate limited (429)'')),
            [?fg this body, ApiSleep 10000, ?fg this body, ApiSleep 20000,
             ?fg this body, ApiSleep 30000, ?fg this body, ApiSleep 30000])"
      by (rule g_end)
    finally show ?thesis by simp
  qed
  have nok: "\<not> ok server_error" "http_status server_error \<noteq> 429"
    "http_status server_error \<noteq> 529" "http_status server_error = 500"
    "body_text server_error = Inr (lit ''internal error'')"
    by (simp_all add: ok_def server_error_def)
  have t: "take 500 (lit ''internal error'') = lit ''internal error''"
    by (simp add: lit_def)
  have g500: "github_attempts ?N500 this body 0 None []
      = (Inl (Err (lit ''GitHub Models API error 500: internal error'')),
         [ApiFetch GITHUB_MODELS_ENDPOINT (github_headers this) body (Inr server_error)])"
    for this body
    using g_fatal [of 0 ?N500 "[]" this body server_error None] nok
    by (auto simp: f500 show_nat_500 t lit_def)
  have a500: "anthropic_attempts ?N500 this body 0 None []
      = (Inl (Err (lit ''Anthropic API error 500: internal error'')),
         [ApiFetch ANTHROPIC_ENDPOINT (anthropic_headers this) body (Inr server_error)])"
    for this body
    using a_fatal [of 0 ?N500 "[]" this body server_error None] nok
    by (auto simp: f500 show_nat_500 t lit_def)
  show ?thesis
    by (simp add: anthropic_callApi_def github_callApi_def a_run g_run g500 a500)
qed

text \<open>
  Claim C9, as stated: after every call the outgoing user message and the raw response are
  both appended to the history.  This fails for a call in which the transport throws: the
  push is the statement after \<open>await this.callApi(...)\<close>, so nothing is appended, neither the
  response (there is none) nor the user message.  Here the server answers 500 to a request
  that has a previous action: \<open>decideAction\<close> throws and the history is the stored one, of
  length 2.
\<close>

theorem failed_call_appends_nothing_counterexample:
  "previousActions second_request = [lit ''click @e1'']
   \<and> fst (anthropic_decideAction (scripted_net (Inr server_error)) second_request some_adapter [])
       = Inl (Err (lit ''Anthropic API error 500: internal error''))
   \<and> conversationHistory (fst (snd (anthropic_decideAction (scripted_net (Inr server_error))
        second_request some_adapter [])))
       = [\<lparr>role = lit ''user'', content = JStr (lit ''earlier question'')\<rparr>,
          \<lparr>role = lit ''assistant'', content = JStr (lit ''earlier answer'')\<rparr>]
   \<and> fst (github_decideAction (scripted_net (Inr server_error)) second_request some_adapter [])
       = Inl (Err (lit ''GitHub Models API error 500: internal error''))
   \<and> conversationHistory (fst (snd (github_decideAction (scripted_net (Inr server_error))
        second_request some_adapter [])))
       = [\<lparr>role = lit ''user'', content = JStr (lit ''earlier question'')\<rparr>,
          \<lparr>role = lit ''assistant'', content = JStr (lit ''earlier answer'')\<rparr>]"
proof -
  let ?N = "scripted_net (Inr server_error)"
  have f: "fetch ?N tr u h b = Inr server_error" for tr u h b
    by (simp add: scripted_net_def)
  have nok: "\<not> ok server_error" "http_status server_error = 500"
    "body_text server_error = Inr (lit ''internal error'')"
    by (simp_all add: ok_def server_error_def)
  have t: "take 500 (lit ''internal error'') = lit ''internal error''"
    by (simp add: lit_def)
  have a: "anthropic_attempts ?N this body 0 None []
      = (Inl (Err (lit ''Anthropic API error 500: internal error'')),
         [ApiFetch ANTHROPIC_ENDPOINT (anthropic_headers this) body (Inr server_error)])"
    for this body
    by (simp add: anthropic_attempts_step f nok show_nat_500 t) (simp add: lit_def)
  have g: "github_attempts ?N this body 0 None []
      = (Inl (Err (lit ''GitHub Models API error 500: internal error'')),
         [ApiFetch GITHUB_MODELS_ENDPOINT (github_headers this) body (Inr server_error)])"
    for this body
    by (simp add: github_attempts_step f nok show_nat_500 t) (simp add: lit_def)
  have p: "previousActions second_request = [lit ''click @e1'']"
    by (simp add: second_request_def)
  have h: "conversationHistory some_adapter
       = [\<lparr>role = lit ''user'', content = JStr (lit ''earlier question'')\<rparr>,
          \<lparr>role = lit ''assistant'', content = JStr (lit ''earlier answer'')\<rparr>]"
    by (simp add: some_adapter_def)
  show ?thesis
    by (simp add: anthropic_decideAction_def github_decideAction_def anthropic_callApi_def
             github_callApi_def Let_def a g p h)
qed

text \<open>
  Claim C9, amended, for both adapters.  The history that \<open>decideAction\<close> sends and keeps
  starts from the empty list when the request has no previous actions and from the stored
  history otherwise.  When \<open>callApi\<close> returns a response, the user message and the response
  are appended to it, in this order; when \<open>callApi\<close> throws, nothing is appended and the
  history stays at that starting value.  In particular both messages are appended when the
  first request is answered by a successful response that carries a non-empty text (a text
  block for Anthropic, the content of the first choice for GitHub Models), and nothing is
  appended when the request is rejected or answered by an error status other than 429 (and
  529 for Anthropic).
\<close>

theorem history_reset_then_append:
  "conversationHistory (fst (snd (anthropic_decideAction N request this tr)))
     = (if previousActions request = [] then [] else conversationHistory this)
       @ (case fst (anthropic_callApi N
                      (this\<lparr>conversationHistory :=
                          if previousActions request = [] then [] else conversationHistory this\<rparr>)
                      (systemPrompt request @ lit ''\<newline>\<newline>## Response Format\<newline>\<newline>''
                         @ ACTION_SCHEMA N)
                      ((if previousActions request = [] then [] else conversationHistory this)
                        @ [\<lparr>role = lit ''user'', content = JStr (buildUserMessage request)\<rparr>])
                      tr) of
            Inl e \<Rightarrow> []
          | Inr response \<Rightarrow>
              [\<lparr>role = lit ''user'', content = JStr (buildUserMessage request)\<rparr>,
               \<lparr>role = lit ''assistant'', content = response\<rparr>])
   \<and> conversationHistory (fst (snd (github_decideAction N request this tr)))
     = (if previousActions request = [] then [] else conversationHistory this)
       @ (case fst (github_callApi N
                      (this\<lparr>conversationHistory :=
                          if previousActions request = [] then [] else conversationHistory this\<rparr>)
                      ([\<lparr>role = lit ''system'',
                         content = JStr (systemPrompt request
                            @ lit ''\<newline>\<newline>## Response Format\<newline>\<newline>'' @ ACTION_SCHEMA N)\<rparr>]
                        @ (if previousActions request = [] then [] else conversationHistory this)
                        @ [\<lparr>role = lit ''user'', content = JStr (buildUserMessage request)\<rparr>])
                      tr) of
            Inl e \<Rightarrow> []
          | Inr response \<Rightarrow>
              [\<lparr>role = lit ''user'', content = JStr (buildUserMessage request)\<rparr>,
               \<lparr>role = lit ''assistant'', content = response\<rparr>])
   \<and> (\<forall>response t.
        (\<forall>h b. fetch N tr ANTHROPIC_ENDPOINT h b = Inr response) \<and> ok response
        \<and> body_json response
            = Inr (JObj [(lit ''content'',
                          JArr [JObj [(lit ''type'', JStr (lit ''text'')),
                                      (lit ''text'', JStr t)]])])
        \<and> t \<noteq> []
        \<longrightarrow> conversationHistory (fst (snd (anthropic_decideAction N request this tr)))
            = (if previousActions request = [] then [] else conversationHistory this)
              @ [\<lparr>role = lit ''user'', content = JStr (buildUserMessage request)\<rparr>,
                 \<lparr>role = lit ''assistant'', content = JStr t\<rparr>])
   \<and> (\<forall>response t.
        (\<forall>h b. fetch N tr GITHUB_MODELS_ENDPOINT h b = Inr response) \<and> ok response
        \<and> body_json response
            = Inr (JObj [(lit ''choices'',
                          JArr [JObj [(lit ''message'',
                                       JObj [(lit ''content'', JStr t)])]])])
        \<and> t \<noteq> []
        \<longrightarrow> conversationHistory (fst (snd (github_decideAction N request this tr)))
            = (if previousActions request = [] then [] else conversationHistory this)
              @ [\<lparr>role = lit ''user'', content = JStr (buildUserMessage request)\<rparr>,
                 \<lparr>role = lit ''assistant'', content = JStr t\<rparr>])
   \<and> (\<forall>answer.
        (\<forall>h b. fetch N tr ANTHROPIC_ENDPOINT h b = answer)
        \<and> (case answer of Inl reason \<Rightarrow> True
            | Inr response \<Rightarrow> \<not> ok response \<and> http_status response \<noteq> 429
                \<and> http_status response \<noteq> 529)
        \<longrightarrow> conversationHistory (fst (snd (anthropic_decideAction N request this tr)))
            = (if previousActions request = [] then [] else conversationHistory this))
   \<and> (\<forall>answer.
        (\<forall>h b. fetch N tr GITHUB_MODELS_ENDPOINT h b = answer)
        \<and> (case answer of Inl reason \<Rightarrow> True
            | Inr response \<Rightarrow> \<not> ok response \<and> http_status response \<noteq> 429)
        \<longrightarrow> conversationHistory (fst (snd (github_decideAction N request this tr)))
            = (if previousActions request = [] then [] else conversationHistory this))"
proof -
  let ?base = "if previousActions request = [] then [] else conversationHistory this"
  let ?user = "\<lparr>role = lit ''user'', content = JStr (buildUserMessage request)\<rparr>"
  have i: "this\<lparr>conversationHistory := conversationHistory this\<rparr> = this" by simp
  have a: "conversationHistory (fst (snd (anthropic_decideAction N request this tr)))
     = ?base
       @ (case fst (anthropic_callApi N (this\<lparr>conversationHistory := ?base\<rparr>)
                      (systemPrompt request @ lit ''\<newline>\<newline>## Response Format\<newline>\<newline>''
                         @ ACTION_SCHEMA N)
                      (?base @ [?user]) tr) of
            Inl e \<Rightarrow> []
          | Inr response \<Rightarrow> [?user, \<lparr>role = lit ''assistant'', content = response\<rparr>])"
    by (simp add: anthropic_decideAction_def Let_def split_beta i split: sum.splits prod.splits)
  have g: "conversationHistory (fst (snd (github_decideAction N request this tr)))
     = ?base
       @ (case fst (github_callApi N (this\<lparr>conversationHistory := ?base\<rparr>)
                      ([\<lparr>role = lit ''system'',
                         content = JStr (systemPrompt request
                            @ lit ''\<newline>\<newline>## Response Format\<newline>\<newline>'' @ ACTION_SCHEMA N)\<rparr>]
                        @ ?base @ [?user]) tr) of
            Inl e \<Rightarrow> []
          | Inr response \<Rightarrow> [?user, \<lparr>role = lit ''assistant'', content = response\<rparr>])"
    by (simp add: github_decideAction_def Let_def split_beta i split: sum.splits prod.splits)
  have ok_status: "http_status response \<noteq> 429 \<and> http_status response \<noteq> 529"
    if "ok response" for response
    using that by (simp add: ok_def)
  have a_ok: "fst (anthropic_callApi N that sp ms tr) = Inr (JStr t)"
    if "\<forall>h b. fetch N tr ANTHROPIC_ENDPOINT h b = Inr response" "ok response"
       "body_json response
          = Inr (JObj [(lit ''content'',
                        JArr [JObj [(lit ''type'', JStr (lit ''text'')),
                                    (lit ''text'', JStr t)]])])"
       "t \<noteq> []"
    for response t that sp ms
    using that ok_status [of response]
    by (simp add: anthropic_callApi_def anthropic_attempts_step anthropic_text_def lit_def)
  have g_ok: "fst (github_callApi N that ms tr) = Inr (JStr t)"
    if "\<forall>h b. fetch N tr GITHUB_MODELS_ENDPOINT h b = Inr response" "ok response"
       "body_json response
          = Inr (JObj [(lit ''choices'',
                        JArr [JObj [(lit ''message'',
                                     JObj [(lit ''content'', JStr t)])]])])"
       "t \<noteq> []"
    for response t that ms
    using that ok_status [of response]
    by (simp add: github_callApi_def github_attempts_step github_text_def lit_def)
  have a_bad: "\<exists>e. fst (anthropic_callApi N that sp ms tr) = Inl e"
    if "\<forall>h b. fetch N tr ANTHROPIC_ENDPOINT h b = answer"
       "case answer of Inl reason \<Rightarrow> True
        | Inr response \<Rightarrow> \<not> ok response \<and> http_status response \<noteq> 429
            \<and> http_status response \<noteq> 529"
    for answer that sp ms
    using that
    by (cases answer)
       (auto simp: anthropic_callApi_def anthropic_attempts_step split: sum.splits)
  have g_bad: "\<exists>e. fst (github_callApi N that ms tr) = Inl e"
    if "\<forall>h b. fetch N tr GITHUB_MODELS_ENDPOINT h b = answer"
       "case answer of Inl reason \<Rightarrow> True
        | Inr response \<Rightarrow> \<not> ok response \<and> http_status response \<noteq> 429"
    for answer that ms
    using that
    by (cases answer)
       (auto simp: github_callApi_def github_attempts_step split: sum.splits)
  show ?thesis
  proof (intro conjI allI impI)
    show "conversationHistory (fst (snd (anthropic_decideAction N request this tr)))
     = ?base
       @ (case fst (anthropic_callApi N (this\<lparr>conversationHistory := ?base\<rparr>)
                      (systemPrompt request @ lit ''\<newline>\<newline>## Response Format\<newline>\<newline>''
                         @ ACTION_SCHEMA N)
                      (?base @ [?user]) tr) of
            Inl e \<Rightarrow> []
          | Inr response \<Rightarrow> [?user, \<lparr>role = lit ''assistant'', content = response\<rparr>])"
      by (rule a)
  next
    show "conversationHistory (fst (snd (github_decideAction N request this tr)))
     = ?base
       @ (case fst (github_callApi N (this\<lparr>conversationHistory := ?base\<rparr>)
                      ([\<lparr>role = lit ''system'',
                         content = JStr (systemPrompt request
                            @ lit ''\<newline>\<newline>## Response Format\<newline>\<newline>'' @ ACTION_SCHEMA N)\<rparr>]
                        @ ?base @ [?user]) tr) of
            Inl e \<Rightarrow> []
          | Inr response \<Rightarrow> [?user, \<lparr>role = lit ''assistant'', content = response\<rparr>])"
      by (rule g)
  next
    fix response t
    assume "(\<forall>h b. fetch N tr ANTHROPIC_ENDPOINT h b = Inr response) \<and> ok response
        \<and> body_json response
            = Inr (JObj [(lit ''content'',
                          JArr [JObj [(lit ''type'', JStr (lit ''text'')),
                                      (lit ''text'', JStr t)]])])
        \<and> t \<noteq> []"
    then have "fst (anthropic_callApi N that sp ms tr) = Inr (JStr t)" for that sp ms
      using a_ok [of response t that sp ms] by blast
    then show "conversationHistory (fst (snd (anthropic_decideAction N request this tr)))
            = ?base @ [?user, \<lparr>role = lit ''assistant'', content = JStr t\<rparr>]"
      by (simp only: a sum.case)
  next
    fix response t
    assume "(\<forall>h b. fetch N tr GITHUB_MODELS_ENDPOINT h b = Inr response) \<and> ok response
        \<and> body_json response
            = Inr (JObj [(lit ''choices'',
                          JArr [JObj [(lit ''message'',
                                       JObj [(lit ''content'', JStr t)])]])])
        \<and> t \<noteq> []"
    then have "fst (github_callApi N that ms tr) = Inr (JStr t)" for that ms
      using g_ok [of response t that ms] by blast
    then show "conversationHistory (fst (snd (github_decideAction N request this tr)))
            = ?base @ [?user, \<lparr>role = lit ''assistant'', content = JStr t\<rparr>]"
      by (simp only: g sum.case)
  next
    fix answer
    assume h: "(\<forall>h b. fetch N tr ANTHROPIC_ENDPOINT h b = answer)
        \<and> (case answer of Inl reason \<Rightarrow> True
            | Inr response \<Rightarrow> \<not> ok response \<and> http_status response \<noteq> 429
                \<and> http_status response \<noteq> 529)"
    from h a_bad [of answer "this\<lparr>conversationHistory := ?base\<rparr>"
                   "systemPrompt request @ lit ''\<newline>\<newline>## Response Format\<newline>\<newline>''
                         @ ACTION_SCHEMA N" "?base @ [?user]"]
    obtain e where "fst (anthropic_callApi N (this\<lparr>conversationHistory := ?base\<rparr>)
                      (systemPrompt request @ lit ''\<newline>\<newline>## Response Format\<newline>\<newline>''
                         @ ACTION_SCHEMA N)
                      (?base @ [?user]) tr) = Inl e"
      by blast
    then show "conversationHistory (fst (snd (anthropic_decideAction N request this tr))) = ?base"
      by (simp only: a sum.case append_Nil2)
  next
    fix answer
    assume h: "(\<forall>h b. fetch N tr GITHUB_MODELS_ENDPOINT h b = answer)
        \<and> (case answer of Inl reason \<Rightarrow> True
            | Inr response \<Rightarrow> \<not> ok response \<and> http_status response \<noteq> 429)"
    from h g_bad [of answer "this\<lparr>conversationHistory := ?base\<rparr>"
                   "[\<lparr>role = lit ''system'',
                         content = JStr (systemPrompt request
                            @ lit ''\<newline>\<newline>## Response Format\<newline>\<newline>'' @ ACTION_SCHEMA N)\<rparr>]
                        @ ?base @ [?user]"]
    obtain e where "fst (github_callApi N (this\<lparr>conversationHistory := ?base\<rparr>)
                      ([\<lparr>role = lit ''system'',
                         content = JStr (systemPrompt request
                            @ lit ''\<newline>\<newline>## Response Format\<newline>\<newline>'' @ ACTION_SCHEMA N)\<rparr>]
                        @ ?base @ [?user]) tr) = Inl e"
      by blast
    then show "conversationHistory (fst (snd (github_decideAction N request this tr))) = ?base"
      by (simp only: g sum.case append_Nil2)
  qed
qed

theorem history_reset_then_append_witness:
  "conversationHistory (fst (snd (anthropic_decideAction (scripted_net (Inr anthropic_reply))
      first_request some_adapter [])))
     = [\<lparr>role = lit ''user'', content = JStr (buildUserMessage first_request)\<rparr>,
        \<lparr>role = lit ''assistant'', content = JStr chatty_reply\<rparr>]
   \<and> conversationHistory (fst (snd (anthropic_decideAction (scripted_net (Inr anthropic_reply))
      second_request some_adapter [])))
     = [\<lparr>role = lit ''user'', content = JStr (lit ''earlier question'')\<rparr>,
        \<lparr>role = lit ''assistant'', content = JStr (lit ''earlier answer'')\<rparr>,
        \<lparr>role = lit ''user'', content = JStr (buildUserMessage second_request)\<rparr>,
        \<lparr>role = lit ''assistant'', content = JStr chatty_reply\<rparr>]
   \<and> conversationHistory (fst (snd (github_decideAction (scripted_net (Inr github_reply))
      first_request some_adapter [])))
     = [\<lparr>role = lit ''user'', content = JStr (buildUserMessage first_request)\<rparr>,
        \<lparr>role = lit ''assistant'', content = JStr chatty_reply\<rparr>]
   \<and> conversationHistory (fst (snd (github_decideAction (scripted_net (Inr github_reply))
      second_request some_adapter [])))
     = [\<lparr>role = lit ''user'', content = JStr (lit ''earlier question'')\<rparr>,
        \<lparr>role = lit ''assistant'', content = JStr (lit ''earlier answer'')\<rparr>,
        \<lparr>role = lit ''user'', content = JStr (buildUserMessage second_request)\<rparr>,
        \<lparr>role = lit ''assistant'', content = JStr chatty_reply\<rparr>]
   \<and> conversationHistory (fst (snd (anthropic_decideAction (scripted_net (Inr server_error))
      first_request some_adapter []))) = []
   \<and> conversationHistory (fst (snd (github_decideAction
      (scripted_net (Inl (lit ''fetch failed''))) first_request some_adapter []))) = []"
proof -
  note r = history_reset_then_append
  note a_ok = r [THEN conjunct2, THEN conjunct2, THEN conjunct1, rule_format]
  note g_ok = r [THEN conjunct2, THEN conjunct2, THEN conjunct2, THEN conjunct1, rule_format]
  note a_bad = r [THEN conjunct2, THEN conjunct2, THEN conjunct2, THEN conjunct2, THEN conjunct1,
                  rule_format]
  note g_bad = r [THEN conjunct2, THEN conjunct2, THEN conjunct2, THEN conjunct2, THEN conjunct2,
                  rule_format]
  have f: "fetch (scripted_net answer) tr u h b = answer" for answer tr u h b
    by (simp add: scripted_net_def)
  have c: "chatty_reply \<noteq> []" by (simp add: chatty_reply_def lit_def)
  have oa: "ok anthropic_reply" "ok github_reply"
    by (simp_all add: ok_def anthropic_reply_def github_reply_def)
  have ba: "body_json anthropic_reply
              = Inr (JObj [(lit ''content'',
                            JArr [JObj [(lit ''type'', JStr (lit ''text'')),
                                        (lit ''text'', JStr chatty_reply)]])])"
    by (simp add: anthropic_reply_def)
  have bg: "body_json github_reply
              = Inr (JObj [(lit ''choices'',
                            JArr [JObj [(lit ''message'',
                                         JObj [(lit ''content'', JStr chatty_reply)])]])])"
    by (simp add: github_reply_def)
  have p: "previousActions first_request = []" "previousActions second_request \<noteq> []"
    by (simp_all add: first_request_def second_request_def)
  have h: "conversationHistory some_adapter
       = [\<lparr>role = lit ''user'', content = JStr (lit ''earlier question'')\<rparr>,
          \<lparr>role = lit ''assistant'', content = JStr (lit ''earlier answer'')\<rparr>]"
    by (simp add: some_adapter_def)
  have nok: "\<not> ok server_error" "http_status server_error \<noteq> 429"
    "http_status server_error \<noteq> 529"
    by (simp_all add: ok_def server_error_def)
  have w1: "conversationHistory (fst (snd (anthropic_decideAction (scripted_net (Inr anthropic_reply))
      request some_adapter [])))
     = (if previousActions request = [] then [] else conversationHistory some_adapter)
       @ [\<lparr>role = lit ''user'', content = JStr (buildUserMessage request)\<rparr>,
          \<lparr>role = lit ''assistant'', content = JStr chatty_reply\<rparr>]" for request
    by (rule a_ok [of "scripted_net (Inr anthropic_reply)" "[]" anthropic_reply chatty_reply])
       (simp add: f oa ba c)
  have w2: "conversationHistory (fst (snd (github_decideAction (scripted_net (Inr github_reply))
      request some_adapter [])))
     = (if previousActions request = [] then [] else conversationHistory some_adapter)
       @ [\<lparr>role = lit ''user'', content = JStr (buildUserMessage request)\<rparr>,
          \<lparr>role = lit ''assistant'', content = JStr chatty_reply\<rparr>]" for request
    by (rule g_ok [of "scripted_net (Inr github_reply)" "[]" github_reply chatty_reply])
       (simp add: f oa bg c)
  have w3: "conversationHistory (fst (snd (anthropic_decideAction (scripted_net (Inr server_error))
      request some_adapter [])))
     = (if previousActions request = [] then [] else conversationHistory some_adapter)" for request
    by (rule a_bad [of "scripted_net (Inr server_error)" "[]" "Inr server_error"])
       (simp add: f nok)
  have w4: "conversationHistory (fst (snd (github_decideAction
      (scripted_net (Inl (lit ''fetch failed''))) request some_adapter [])))
     = (if previousActions request = [] then [] else conversationHistory some_adapter)" for request
    by (rule g_bad [of "scripted_net (Inl (lit ''fetch failed''))" "[]" "Inl (lit ''fetch failed'')"])
       (simp add: f)
  show ?thesis
    by (simp add: w1 w2 w3 w4 p h)
qed

end
